theory Spec2Isabelle
  imports Main "HOL-Library.Product_Lexorder" "HOL-Library.Multiset"
begin

section \<open>Python errors and numpy int64 arrays\<close>

text \<open>
  The exceptions the modelled functions can raise. A failed \<open>assert\<close> is
  \<open>AssertionError\<close>; converting a Python integer outside the 64-bit range with
  \<open>np.array(xs, np.int64)\<close> is \<open>OverflowError\<close>.
\<close>

datatype py_error =
    AssertionError | OverflowError | AttributeError | KeyError | TypeError | ValueError
  | IndexError

definition int64_ok :: "int \<Rightarrow> bool" where
  "int64_ok x \<longleftrightarrow> - (2 ^ 63) \<le> x \<and> x < 2 ^ 63"

definition np_array_int64 :: "int list \<Rightarrow> py_error + int list" where
  "np_array_int64 xs = (if list_all int64_ok xs then Inr xs else Inl OverflowError)"

section \<open>Layout conversion of shapes (ops/op.py, class Op)\<close>

text \<open>
  \<open>in_shape[index]\<close> with an index array reads the entries of \<open>in_shape\<close> at the
  listed positions; the length check in front guarantees that the positions exist.
\<close>

definition shape_nchw_to_nhwc :: "int list \<Rightarrow> py_error + int list" where
  "shape_nchw_to_nhwc shape =
     (if length shape \<noteq> 4 then Inl AssertionError
      else case np_array_int64 shape of
             Inl e \<Rightarrow> Inl e
           | Inr in_shape \<Rightarrow> Inr (map (\<lambda>i. in_shape ! i) [0, 2, 3, 1]))"

definition shape_nhwc_to_nchw :: "int list \<Rightarrow> py_error + int list" where
  "shape_nhwc_to_nchw shape =
     (if length shape \<noteq> 4 then Inl AssertionError
      else case np_array_int64 shape of
             Inl e \<Rightarrow> Inl e
           | Inr in_shape \<Rightarrow> Inr (map (\<lambda>i. in_shape ! i) [0, 3, 1, 2]))"

section \<open>Padding layout conversion (ops/op.py, class OpHasPaddingStrides)\<close>

text \<open>
  A two-dimensional numpy array: its shape (rows, columns) and its rows. The shape is
  kept beside the rows because an array with no rows still has a column count.
\<close>

record array2 =
  a_shape :: "nat \<times> nat"
  a_rows :: "int list list"

text \<open>\<open>np.reshape(a, (2, -1))\<close> on a flat array of even length.\<close>

definition reshape_2_rows :: "int list \<Rightarrow> array2" where
  "reshape_2_rows xs =
     (let c = length xs div 2
      in \<lparr>a_shape = (2, c), a_rows = [take c xs, drop c xs]\<rparr>)"

text \<open>\<open>np.transpose\<close> of a two-dimensional array.\<close>

definition transpose2 :: "array2 \<Rightarrow> array2" where
  "transpose2 a =
     \<lparr>a_shape = (snd (a_shape a), fst (a_shape a)),
      a_rows = map (\<lambda>j. map (\<lambda>row. row ! j) (a_rows a)) [0..<snd (a_shape a)]\<rparr>"

text \<open>\<open>np.zeros((r, c), np.int64)\<close>.\<close>

definition zeros2 :: "nat \<Rightarrow> nat \<Rightarrow> array2" where
  "zeros2 r c = \<lparr>a_shape = (r, c), a_rows = replicate r (replicate c 0)\<rparr>"

text \<open>
  \<open>ret[lo:lo+n, :] = src\<close> where \<open>src\<close> has \<open>n\<close> rows of the width of \<open>ret\<close>:
  the rows \<open>lo .. lo+n-1\<close> are replaced.
\<close>

definition assign_rows :: "array2 \<Rightarrow> nat \<Rightarrow> array2 \<Rightarrow> array2" where
  "assign_rows ret lo src =
     ret\<lparr>a_rows := take lo (a_rows ret) @ a_rows src
                     @ drop (lo + fst (a_shape src)) (a_rows ret)\<rparr>"

text \<open>\<open>a[:, 1:-1]\<close>: every row without its first and its last entry.\<close>

definition slice_cols_inner :: "array2 \<Rightarrow> array2" where
  "slice_cols_inner a =
     \<lparr>a_shape = (fst (a_shape a), snd (a_shape a) - 2),
      a_rows = map (\<lambda>row. butlast (tl row)) (a_rows a)\<rparr>"

definition onnx_to_tf :: "int list \<Rightarrow> py_error + array2" where
  "onnx_to_tf pads =
     (if length pads mod 2 \<noteq> 0 then Inl AssertionError
      else case np_array_int64 pads of
             Inl e \<Rightarrow> Inl e
           | Inr arr \<Rightarrow>
               (let np_pads = transpose2 (reshape_2_rows arr);
                    space_dims = length pads div 2;
                    ret = zeros2 (space_dims + 2) 2
                in Inr (assign_rows ret 1 np_pads)))"

text \<open>
  \<open>tf_to_onnx\<close> on a two-dimensional array, which is what \<open>onnx_to_tf\<close> returns;
  \<open>flatten().tolist()\<close> lists the rows one after the other.
\<close>

definition tf_to_onnx :: "array2 \<Rightarrow> bool \<Rightarrow> py_error + int list" where
  "tf_to_onnx paddings as_full =
     (if snd (a_shape paddings) \<noteq> 2 then Inl AssertionError
      else (let p = transpose2 paddings;
                p' = (if \<not> as_full then slice_cols_inner p else p)
            in Inr (concat (a_rows p'))))"

section \<open>The attribute model (ops/op.py, class Op)\<close>

text \<open>
  Attribute values. A Python \<open>None\<close> is \<open>PNone\<close>; a Python \<open>bool\<close> is the integer
  it equals; floats, tensors and every other object are kept opaque in \<open>POther\<close>.
  Membership tests (\<open>in\<close>) compare with \<open>==\<close>, which is equality of these values.
  The keys of the dictionaries are such values too: attribute names are strings, schema
  versions are integers.
\<close>

datatype 'o pyval = PNone | PInt int | PStr string | PList "'o pyval list" | POther 'o

text \<open>The semantic types of \<open>AttrType\<close> (\<open>INT\<close> is written with a prime).\<close>

datatype attr_type = STRING | INT' | INTS | FLOAT | FLOATS | STRINGS | TENSOR | TENSORS | UNDEFINED

text \<open>
  One entry of a schema dictionary returned by \<open>attributes()\<close>, such as
  \<open>{'type': AttrType.INT, 'default': 0, 'required': False}\<close>: each of the keys
  \<open>type\<close>, \<open>default\<close>, \<open>required\<close>, \<open>options\<close> and \<open>value\<close> may be absent.
\<close>

record 'o attr_param =
  p_type :: "attr_type option"
  p_default :: "'o pyval option"
  p_required :: "bool option"
  p_options :: "'o pyval list option"
  p_value :: "'o pyval option"

text \<open>
  Modelled from the spec: the class \<open>Attribute\<close> of common/defs.py, which is not part
  of the sources at hand. The data model lists its fields: name, semantic type, default,
  required flag, allowed-options list and current value. An Attribute built from a
  parameter dictionary holds the fields the dictionary gives; the fields it does not give
  read as the fall-back values that \<open>check_required\<close> passes to \<open>getattr\<close>
  (\<open>required\<close>: False, \<open>options\<close>: [], \<open>value\<close>: None). \<open>update\<close> overwrites the
  fields the dictionary gives and keeps the others.
\<close>

record 'o attribute =
  a_name :: "'o pyval"
  a_type :: attr_type
  a_default :: "'o pyval"
  a_required :: bool
  a_options :: "'o pyval list"
  a_value :: "'o pyval"

definition attr_update :: "'o attribute \<Rightarrow> 'o attr_param \<Rightarrow> 'o attribute" where
  "attr_update a p =
     a\<lparr>a_type := (case p_type p of Some t \<Rightarrow> t | None \<Rightarrow> a_type a),
       a_default := (case p_default p of Some d \<Rightarrow> d | None \<Rightarrow> a_default a),
       a_required := (case p_required p of Some r \<Rightarrow> r | None \<Rightarrow> a_required a),
       a_options := (case p_options p of Some os \<Rightarrow> os | None \<Rightarrow> a_options a),
       a_value := (case p_value p of Some v \<Rightarrow> v | None \<Rightarrow> a_value a)\<rparr>"

definition Attribute :: "'o pyval \<Rightarrow> 'o attr_param \<Rightarrow> 'o attribute" where
  "Attribute k p =
     attr_update \<lparr>a_name = k, a_type = UNDEFINED, a_default = PNone, a_required = False,
                  a_options = [], a_value = PNone\<rparr> p"

text \<open>
  The dictionary \<open>self._attr\<close> of an Op, in insertion order. An entry is an Attribute
  or, after \<open>__setattr__\<close> has fallen back to plain assignment, a bare value.
\<close>

datatype 'o entry = Attr "'o attribute" | Raw "'o pyval"

type_synonym 'o attrs = "('o pyval \<times> 'o entry) list"

text \<open>\<open>d[k] = v\<close> on a dictionary kept in insertion order.\<close>

fun dict_set :: "'k \<Rightarrow> 'v \<Rightarrow> ('k \<times> 'v) list \<Rightarrow> ('k \<times> 'v) list" where
  "dict_set k v [] = [(k, v)]"
| "dict_set k v ((k', v') # r) = (if k' = k then (k, v) # r else (k', v') # dict_set k v r)"

text \<open>
  The body shared by the two loops of \<open>update_attributes\<close>: the schema entry gets the
  provided value, or else a copy of its default, as \<open>value\<close>; the Attribute stored under
  the key is updated, or a new one is made. Calling \<open>update\<close> on a bare value raises.
\<close>

definition merge_attr ::
  "('o pyval \<rightharpoonup> 'o pyval) \<Rightarrow> 'o pyval \<Rightarrow> 'o attr_param \<Rightarrow> 'o attrs
     \<Rightarrow> py_error + 'o attrs" where
  "merge_attr attr_dict k v attrs =
     (let attr_param =
            (case attr_dict k of
               Some x \<Rightarrow> v\<lparr>p_value := Some x\<rparr>
             | None \<Rightarrow> (case p_default v of
                          Some d \<Rightarrow> v\<lparr>p_value := Some d\<rparr>
                        | None \<Rightarrow> v))
      in case map_of attrs k of
           Some (Attr a) \<Rightarrow> Inr (dict_set k (Attr (attr_update a attr_param)) attrs)
         | Some (Raw _) \<Rightarrow> Inl AttributeError
         | None \<Rightarrow> Inr (dict_set k (Attr (Attribute k attr_param)) attrs))"

fun merge_all ::
  "('o pyval \<rightharpoonup> 'o pyval) \<Rightarrow> ('o pyval \<times> 'o attr_param) list \<Rightarrow> 'o attrs
     \<Rightarrow> py_error + 'o attrs" where
  "merge_all attr_dict [] attrs = Inr attrs"
| "merge_all attr_dict ((k, v) # items) attrs =
     (case merge_attr attr_dict k v attrs of
        Inl e \<Rightarrow> Inl e
      | Inr attrs' \<Rightarrow> merge_all attr_dict items attrs')"

text \<open>
  The four framework base classes of \<open>supported_ops\<close>; an Op of none of them (a common
  or an Arm op) has no framework.
\<close>

datatype framework = Onnx | Tflite | Caffe | Tf

text \<open>The empty schema entry \<open>{}\<close>.\<close>

definition no_param :: "'o attr_param" where
  "no_param = \<lparr>p_type = None, p_default = None, p_required = None, p_options = None,
                p_value = None\<rparr>"

text \<open>
  What \<open>cls.attributes()\<close> returns: a dictionary from key to schema entry (for an
  abstract class and for a class outside the four frameworks, the keys being attribute
  names) or a dictionary from version number to a table, which is a dictionary from
  attribute name to schema entry (for a concrete framework class).
\<close>

datatype 'o cls_schema =
    Flat "('o pyval \<times> 'o attr_param) list"
  | ByVersion "(int \<times> ('o pyval \<times> 'o attr_param) list) list"

text \<open>
  The first branch of \<open>update_attributes\<close> loops over \<open>cls.attributes().items()\<close>
  and reads every value as a schema entry, whatever the keys are. The abstract class
  \<open>TfliteReduceOp\<close> has \<open>{1: {}, 2: {}}\<close>: the loop then stores an Attribute
  without fields under the keys 1 and 2. A table is read in the same way; the keys of a
  table are attribute names, of which an Attribute takes none of its fields \<open>type\<close>,
  \<open>default\<close>, \<open>required\<close>, \<open>options\<close> and \<open>value\<close> (a table with an
  attribute of one of these five names would give that field a schema entry as content,
  which no class at hand does and the Attribute of the model cannot hold).
\<close>

fun flat_items :: "'o cls_schema \<Rightarrow> ('o pyval \<times> 'o attr_param) list" where
  "flat_items (Flat items) = items"
| "flat_items (ByVersion by_ver) = map (\<lambda>(ver, table). (PInt ver, no_param)) by_ver"

text \<open>\<open>self._attr[k].value\<close>: the key must be there and hold an Attribute.\<close>

definition attr_value :: "'o attrs \<Rightarrow> 'o pyval \<Rightarrow> py_error + 'o pyval" where
  "attr_value attrs k =
     (case map_of attrs k of
        None \<Rightarrow> Inl KeyError
      | Some (Raw _) \<Rightarrow> Inl AttributeError
      | Some (Attr a) \<Rightarrow> Inr (a_value a))"

text \<open>\<open>self._attr[k].value = v\<close>.\<close>

definition set_attr_value :: "'o attrs \<Rightarrow> 'o pyval \<Rightarrow> 'o pyval \<Rightarrow> py_error + 'o attrs" where
  "set_attr_value attrs k v =
     (case map_of attrs k of
        None \<Rightarrow> Inl KeyError
      | Some (Raw _) \<Rightarrow> Inl AttributeError
      | Some (Attr a) \<Rightarrow> Inr (dict_set k (Attr (a\<lparr>a_value := v\<rparr>)) attrs))"

text \<open>
  The versioned branch of \<open>update_attributes\<close> works on a copy \<open>cls_attrs\<close> of the
  class schema, a dictionary keyed by version. \<open>keyed_schemas\<close> is that copy, with the
  keys as values so that an attribute value can be looked up in it.
\<close>

definition keyed_schemas ::
  "(int \<times> ('o pyval \<times> 'o attr_param) list) list
     \<Rightarrow> ('o pyval \<times> ('o pyval \<times> 'o attr_param) list) list" where
  "keyed_schemas by_ver = map (\<lambda>(ver, s). (PInt ver, s)) by_ver"

text \<open>
  \<open>copy.deepcopy(cls_attrs[keys[-1]]) if keys else {}\<close> with
  \<open>keys = sorted(list(cls.attributes().keys()))\<close>: the schema of the highest version,
  or no attributes when the class has no version at all.
\<close>

definition highest_schema ::
  "(int \<times> ('o pyval \<times> 'o attr_param) list) list \<Rightarrow> ('o pyval \<times> 'o attr_param) list" where
  "highest_schema by_ver =
     (let keys = sort (map fst by_ver)
      in if keys \<noteq> []
         then (case map_of by_ver (last keys) of Some items \<Rightarrow> items | None \<Rightarrow> [])
         else [])"

text \<open>
  The first half of the versioned branch. A TFLite or TensorFlow op takes its opcode
  version as current version and, when the class has no schema for it, gets the schema
  of the highest version under that key; a Caffe op is always at version 1; an ONNX op
  keeps the current version it has. The result is the attribute dictionary and
  \<open>cls_attrs\<close>.
\<close>

definition version_schemas ::
  "framework \<Rightarrow> (int \<times> ('o pyval \<times> 'o attr_param) list) list \<Rightarrow> 'o attrs
     \<Rightarrow> py_error + 'o attrs \<times> ('o pyval \<times> ('o pyval \<times> 'o attr_param) list) list" where
  "version_schemas fw by_ver attrs =
     (if fw = Tflite \<or> fw = Tf then
        (case attr_value attrs (PStr ''opcode_version'') of
           Inl e \<Rightarrow> Inl e
         | Inr ov \<Rightarrow>
             (case set_attr_value attrs (PStr ''cur_version'') ov of
                Inl e \<Rightarrow> Inl e
              | Inr attrs1 \<Rightarrow>
                  if ov \<notin> set (map (PInt \<circ> fst) by_ver)
                  then Inr (attrs1, keyed_schemas by_ver @ [(ov, highest_schema by_ver)])
                  else Inr (attrs1, keyed_schemas by_ver)))
      else if fw = Caffe then
        (case set_attr_value attrs (PStr ''cur_version'') (PInt 1) of
           Inl e \<Rightarrow> Inl e
         | Inr attrs1 \<Rightarrow> Inr (attrs1, keyed_schemas by_ver))
      else Inr (attrs, keyed_schemas by_ver))"

text \<open>
  The second half: the assertion that the current version is a key of \<open>cls_attrs\<close>,
  and the loop over the schema of that version.
\<close>

definition merge_version ::
  "('o pyval \<rightharpoonup> 'o pyval) \<Rightarrow> 'o attrs \<Rightarrow> ('o pyval \<times> ('o pyval \<times> 'o attr_param) list) list
     \<Rightarrow> py_error + 'o attrs" where
  "merge_version attr_dict attrs cls_attrs =
     (case map_of attrs (PStr ''cur_version'') of
        None \<Rightarrow> Inl AssertionError
      | Some (Raw _) \<Rightarrow> Inl AttributeError
      | Some (Attr cur) \<Rightarrow>
          (case map_of cls_attrs (a_value cur) of
             None \<Rightarrow> Inl AssertionError
           | Some items \<Rightarrow> merge_all attr_dict items attrs))"

text \<open>
  The second branch on a schema that is keyed by attribute names, which no class at hand
  has. \<open>cls_attrs\<close> is then the schema itself. \<open>sorted(keys)[-1]\<close> is the greatest
  key when the keys are all integers or all strings (ordered by code points); a single
  key needs no comparison; other keys cannot be ordered and \<open>sorted\<close> raises
  \<open>TypeError\<close>.
\<close>

fun str_le :: "string \<Rightarrow> string \<Rightarrow> bool" where
  "str_le [] t = True"
| "str_le (c # s) [] = False"
| "str_le (c # s) (d # t) =
     ((of_char c :: nat) < of_char d \<or> (c = d \<and> str_le s t))"

fun the_int :: "'o pyval \<Rightarrow> int option" where
  "the_int (PInt n) = Some n"
| "the_int _ = None"

fun the_str :: "'o pyval \<Rightarrow> string option" where
  "the_str (PStr s) = Some s"
| "the_str _ = None"

definition last_sorted_key :: "'o pyval list \<Rightarrow> py_error + 'o pyval" where
  "last_sorted_key keys =
     (case keys of
        [k] \<Rightarrow> Inr k
      | _ \<Rightarrow>
          (case those (map the_int keys) of
             Some ns \<Rightarrow> Inr (PInt (fold max ns (hd ns)))
           | None \<Rightarrow>
               (case those (map the_str keys) of
                  Some ss \<Rightarrow> Inr (PStr (fold (\<lambda>s m. if str_le m s then s else m) ss (hd ss)))
                | None \<Rightarrow> Inl TypeError)))"

definition flat_version_schemas ::
  "framework \<Rightarrow> ('o pyval \<times> 'o attr_param) list \<Rightarrow> 'o attrs
     \<Rightarrow> py_error + 'o attrs \<times> ('o pyval \<times> 'o attr_param) list" where
  "flat_version_schemas fw items attrs =
     (if fw = Tflite \<or> fw = Tf then
        (case attr_value attrs (PStr ''opcode_version'') of
           Inl e \<Rightarrow> Inl e
         | Inr ov \<Rightarrow>
             (case set_attr_value attrs (PStr ''cur_version'') ov of
                Inl e \<Rightarrow> Inl e
              | Inr attrs1 \<Rightarrow>
                  if ov \<notin> set (map fst items)
                  then (if items = [] then Inr (attrs1, [(ov, no_param)])
                        else (case last_sorted_key (map fst items) of
                                Inl e \<Rightarrow> Inl e
                              | Inr k \<Rightarrow>
                                  Inr (attrs1,
                                       items @ [(ov, case map_of items k of
                                                       Some v \<Rightarrow> v
                                                     | None \<Rightarrow> no_param)])))
                  else Inr (attrs1, items)))
      else if fw = Caffe then
        (case set_attr_value attrs (PStr ''cur_version'') (PInt 1) of
           Inl e \<Rightarrow> Inl e
         | Inr attrs1 \<Rightarrow> Inr (attrs1, items))
      else Inr (attrs, items))"

text \<open>
  The assertion fails unless the current version is one of the keys. When it is, the
  loop runs over the items of a schema entry: for \<open>{}\<close> it does nothing; otherwise
  its body takes a field such as \<open>'default': 0\<close> for a schema entry and fails on it
  (\<open>'default' in 0\<close> raises \<open>TypeError\<close>; which statement of the body fails
  depends on the content of the field).
\<close>

definition flat_merge_version ::
  "'o attrs \<Rightarrow> ('o pyval \<times> 'o attr_param) list \<Rightarrow> py_error + 'o attrs" where
  "flat_merge_version attrs cls_attrs =
     (case map_of attrs (PStr ''cur_version'') of
        None \<Rightarrow> Inl AssertionError
      | Some (Raw _) \<Rightarrow> Inl AttributeError
      | Some (Attr cur) \<Rightarrow>
          (case map_of cls_attrs (a_value cur) of
             None \<Rightarrow> Inl AssertionError
           | Some v \<Rightarrow> if v = no_param then Inr attrs else Inl TypeError))"

text \<open>
  \<open>update_attributes(self, cls, attr_dict)\<close>. \<open>is_abstract\<close> is
  \<open>inspect.isabstract(cls)\<close>; \<open>fw\<close> tells of which framework base class \<open>self\<close> is an
  instance, if any; \<open>attr_dict\<close> is a dictionary. The first branch is taken when
  \<open>cls\<close> is abstract or \<open>self\<close> is of no framework.
\<close>

definition update_attributes ::
  "bool \<Rightarrow> framework option \<Rightarrow> 'o cls_schema \<Rightarrow> ('o pyval \<rightharpoonup> 'o pyval) \<Rightarrow> 'o attrs
     \<Rightarrow> py_error + 'o attrs" where
  "update_attributes is_abstract fw cls_attributes attr_dict attrs =
     (case (if is_abstract then None else fw) of
        None \<Rightarrow> merge_all attr_dict (flat_items cls_attributes) attrs
      | Some f \<Rightarrow>
          (case cls_attributes of
             Flat items \<Rightarrow>
               (case flat_version_schemas f items attrs of
                  Inl e \<Rightarrow> Inl e
                | Inr (attrs1, cls_attrs) \<Rightarrow> flat_merge_version attrs1 cls_attrs)
           | ByVersion by_ver \<Rightarrow>
               (case version_schemas f by_ver attrs of
                  Inl e \<Rightarrow> Inl e
                | Inr (attrs1, cls_attrs) \<Rightarrow> merge_version attr_dict attrs1 cls_attrs)))"

text \<open>
  \<open>check_required\<close>: the loop over \<open>self._attr.items()\<close> returns False at the
  first Attribute that is required and has no value, or that has options and a value
  outside them; bare values are skipped. \<open>is_abstract\<close> is
  \<open>inspect.isabstract(type(self))\<close>.
\<close>

fun check_items :: "'o attrs \<Rightarrow> bool" where
  "check_items [] = True"
| "check_items ((attr_key, Raw _) # items) = check_items items"
| "check_items ((attr_key, Attr v) # items) =
     (if a_required v \<and> a_value v = PNone then False
      else if a_options v \<noteq> [] \<and> a_value v \<notin> set (a_options v) then False
      else check_items items)"

definition check_required :: "bool \<Rightarrow> 'o attrs \<Rightarrow> bool" where
  "check_required is_abstract attrs = (if is_abstract then True else check_items attrs)"

text \<open>\<open>copied_attr\<close>: the value stored under every key.\<close>

definition copied_attr :: "'o attrs \<Rightarrow> ('o pyval \<times> 'o pyval) list" where
  "copied_attr attrs =
     map (\<lambda>(k, e). (k, case e of Attr a \<Rightarrow> a_value a | Raw v \<Rightarrow> v)) attrs"

text \<open>The schemas of the base classes, as their \<open>attributes()\<close> methods return them.\<close>

definition Op_attributes :: "('o pyval \<times> 'o attr_param) list" where
  "Op_attributes =
     [(PStr ''name'', no_param\<lparr>p_type := Some STRING, p_default := Some (PStr []),
                           p_required := Some True\<rparr>),
      (PStr ''data_format'',
         no_param\<lparr>p_type := Some STRING, p_default := Some (PStr ''NHWC''),
                   p_options := Some [PStr ''NWC'', PStr ''NCW'', PStr ''NHWC'', PStr ''NCHW'',
                                      PStr ''NDHWC'', PStr ''NCDHW''],
                   p_required := Some True\<rparr>),
      (PStr ''cur_version'', no_param\<lparr>p_type := Some INT', p_default := Some (PInt 0),
                                  p_required := Some False\<rparr>)]"

definition OnnxOp_attributes :: "('o pyval \<times> 'o attr_param) list" where
  "OnnxOp_attributes =
     [(PStr ''opset_version'', no_param\<lparr>p_type := Some INT', p_default := Some (PInt 1),
                                    p_required := Some True\<rparr>)]"

definition TfliteOp_attributes :: "('o pyval \<times> 'o attr_param) list" where
  "TfliteOp_attributes =
     [(PStr ''opcode_version'', no_param\<lparr>p_type := Some INT', p_default := Some (PInt 1),
                                     p_required := Some True\<rparr>)]"

section \<open>Schema versions (ops/op.py, classes Op, OnnxOp, TfliteOp)\<close>

text \<open>The logger only records; \<open>ERROR\<close> and \<open>WARN\<close> do not raise.\<close>

datatype severity = WARN | ERROR

type_synonym log = "(severity \<times> string) list"

text \<open>
  \<open>OnnxOp.cal_ver\<close>; \<open>ver_list\<close> is \<open>cls.attributes().keys()\<close> in the order of
  the dictionary. \<open>np.where(... <= opset_version)[0]\<close> is the list of positions whose
  version is at most the requested one, and \<open>mask[-1]\<close> is the last of them. When
  there is none the function logs an error and falls off its end, returning \<open>None\<close>.
\<close>

definition cal_ver :: "int list \<Rightarrow> int \<Rightarrow> log \<times> int option" where
  "cal_ver ver_list opset_version =
     (if opset_version \<in> set ver_list then ([], Some opset_version)
      else (let mask = filter (\<lambda>i. ver_list ! i \<le> opset_version) [0..<length ver_list]
            in if mask = []
               then ([(ERROR, ''[Parser]: All history versions is greater than opset version'')],
                     None)
               else ([], Some (ver_list ! last mask))))"

text \<open>\<open>OnnxOp.max_ver\<close>: \<open>max\<close> of an empty list raises \<open>ValueError\<close>.\<close>

definition max_ver :: "int list \<Rightarrow> py_error + int" where
  "max_ver ver_list = (if ver_list = [] then Inl ValueError else Inr (Max (set ver_list)))"

text \<open>\<open>Op.__init__\<close>: the attribute dictionary starts empty; \<open>Op\<close> is abstract.\<close>

definition Op_init :: "framework option \<Rightarrow> ('o pyval \<rightharpoonup> 'o pyval) \<Rightarrow> py_error + 'o attrs" where
  "Op_init fw attr_dict = update_attributes True fw (Flat Op_attributes) attr_dict []"

text \<open>
  \<open>OnnxOp.__init__\<close> for a class whose schema has the versions \<open>ver_list\<close>. It
  writes a missing \<open>opset_version\<close> into \<open>attr_dict\<close> itself, so the dictionary is
  returned with the attributes. The opset version is an INT attribute; \<open>cal_ver\<close> on
  a value that is not an integer is outside the model (\<open>TypeError\<close>).
\<close>

definition OnnxOp_init ::
  "int list \<Rightarrow> ('o pyval \<rightharpoonup> 'o pyval)
     \<Rightarrow> log \<times> (py_error + ('o pyval \<rightharpoonup> 'o pyval) \<times> 'o attrs)" where
  "OnnxOp_init ver_list attr_dict =
     (case Op_init (Some Onnx) attr_dict of
        Inl e \<Rightarrow> ([], Inl e)
      | Inr attrs \<Rightarrow>
          (case (if attr_dict (PStr ''opset_version'') = None
                 then (case max_ver ver_list of
                         Inl e \<Rightarrow> Inl e
                       | Inr m \<Rightarrow> Inr (attr_dict((PStr ''opset_version'') \<mapsto> PInt m)))
                 else Inr attr_dict) of
             Inl e \<Rightarrow> ([], Inl e)
           | Inr attr_dict' \<Rightarrow>
               (case update_attributes True (Some Onnx) (Flat OnnxOp_attributes) attr_dict' attrs of
                  Inl e \<Rightarrow> ([], Inl e)
                | Inr attrs1 \<Rightarrow>
                    (case attr_value attrs1 (PStr ''opset_version'') of
                       Inl e \<Rightarrow> ([], Inl e)
                     | Inr (PInt v) \<Rightarrow>
                         (let (lg, ver) = cal_ver ver_list v
                          in case set_attr_value attrs1 (PStr ''cur_version'')
                                    (case ver of Some r \<Rightarrow> PInt r | None \<Rightarrow> PNone) of
                               Inl e \<Rightarrow> (lg, Inl e)
                             | Inr attrs2 \<Rightarrow> (lg, Inr (attr_dict', attrs2)))
                     | Inr _ \<Rightarrow> ([], Inl TypeError)))))"

text \<open>
  The constructor of a concrete ONNX op, up to the update with its own versioned schema:
  the base constructors run first, then \<open>self.update_attributes(cls, attr_dict)\<close>.
\<close>

definition onnx_op_init ::
  "(int \<times> ('o pyval \<times> 'o attr_param) list) list \<Rightarrow> ('o pyval \<rightharpoonup> 'o pyval)
     \<Rightarrow> log \<times> (py_error + 'o attrs)" where
  "onnx_op_init by_ver attr_dict =
     (case OnnxOp_init (map fst by_ver) attr_dict of
        (lg, Inl e) \<Rightarrow> (lg, Inl e)
      | (lg, Inr (attr_dict', attrs)) \<Rightarrow>
          (lg, update_attributes False (Some Onnx) (ByVersion by_ver) attr_dict' attrs))"

text \<open>
  \<open>TfliteOp.__init__\<close> for a class whose schema has the versions \<open>ver_list\<close>: an
  opcode version without a schema is only warned about. The property
  \<open>opcode_version\<close> reads the attribute's value.
\<close>

definition TfliteOp_init ::
  "int list \<Rightarrow> ('o pyval \<rightharpoonup> 'o pyval) \<Rightarrow> log \<times> (py_error + 'o attrs)" where
  "TfliteOp_init ver_list attr_dict =
     (case Op_init (Some Tflite) attr_dict of
        Inl e \<Rightarrow> ([], Inl e)
      | Inr attrs \<Rightarrow>
          (case update_attributes True (Some Tflite) (Flat TfliteOp_attributes) attr_dict attrs of
             Inl e \<Rightarrow> ([], Inl e)
           | Inr attrs1 \<Rightarrow>
               (case attr_value attrs1 (PStr ''opcode_version'') of
                  Inl e \<Rightarrow> ([], Inl e)
                | Inr ov \<Rightarrow>
                    (if ov \<notin> set (map PInt ver_list)
                     then [(WARN, ''[Parser]: Opcode Version is not implemented! But will try to proceed.'')]
                     else [],
                     Inr attrs1))))"

text \<open>The constructor of a concrete TFLite op, up to the update with its own schema.\<close>

definition tflite_op_init ::
  "(int \<times> ('o pyval \<times> 'o attr_param) list) list \<Rightarrow> ('o pyval \<rightharpoonup> 'o pyval)
     \<Rightarrow> log \<times> (py_error + 'o attrs)" where
  "tflite_op_init by_ver attr_dict =
     (case TfliteOp_init (map fst by_ver) attr_dict of
        (lg, Inl e) \<Rightarrow> (lg, Inl e)
      | (lg, Inr attrs) \<Rightarrow>
          (lg, update_attributes False (Some Tflite) (ByVersion by_ver) attr_dict attrs))"

section \<open>Reading the result of an attribute update\<close>

text \<open>
  Notions used to state what \<open>update_attributes\<close> leaves in the attribute dictionary:
  a dictionary whose entries are all Attributes, and the value and the options an
  Attribute has after a schema entry was merged into it.
\<close>

definition all_attr :: "'o attrs \<Rightarrow> bool" where
  "all_attr attrs \<longleftrightarrow> (\<forall>k e. map_of attrs k = Some e \<longrightarrow> (\<exists>a. e = Attr a))"

text \<open>The value an attribute holds after one schema entry has been merged.\<close>

definition merged_value ::
  "('o pyval \<rightharpoonup> 'o pyval) \<Rightarrow> 'o pyval \<Rightarrow> 'o attr_param \<Rightarrow> 'o pyval \<Rightarrow> 'o pyval" where
  "merged_value attr_dict k v old =
     (case attr_dict k of
        Some x \<Rightarrow> x
      | None \<Rightarrow> (case p_default v of
                   Some d \<Rightarrow> d
                 | None \<Rightarrow> (case p_value v of Some x \<Rightarrow> x | None \<Rightarrow> old)))"

definition old_options :: "'o attrs \<Rightarrow> 'o pyval \<Rightarrow> 'o pyval list" where
  "old_options attrs k = (case map_of attrs k of Some (Attr a) \<Rightarrow> a_options a | _ \<Rightarrow> [])"

definition merged_options :: "'o attr_param \<Rightarrow> 'o pyval list \<Rightarrow> 'o pyval list" where
  "merged_options v old = (case p_options v of Some os \<Rightarrow> os | None \<Rightarrow> old)"

definition old_value :: "'o attrs \<Rightarrow> 'o pyval \<Rightarrow> 'o pyval" where
  "old_value attrs k = (case map_of attrs k of Some (Attr a) \<Rightarrow> a_value a | _ \<Rightarrow> PNone)"

text \<open>
  The Attribute a dictionary holds under a key before the update; a key it does not hold
  starts from the Attribute of that name without any field.
\<close>

definition old_attribute :: "'o attrs \<Rightarrow> 'o pyval \<Rightarrow> 'o attribute" where
  "old_attribute attrs k =
     (case map_of attrs k of
        Some (Attr a) \<Rightarrow> a
      | _ \<Rightarrow> \<lparr>a_name = k, a_type = UNDEFINED, a_default = PNone, a_required = False,
              a_options = [], a_value = PNone\<rparr>)"

text \<open>
  The Attribute after the schema entry \<open>v\<close> of the key \<open>k\<close> has been merged: type,
  default, required flag and options are those of the schema entry where it gives them;
  the value is the provided one, else the default of the schema entry, else the value of
  the schema entry, else the value the Attribute had. Nothing is converted.
\<close>

definition merged_attribute ::
  "('o pyval \<rightharpoonup> 'o pyval) \<Rightarrow> 'o pyval \<Rightarrow> 'o attr_param \<Rightarrow> 'o attribute \<Rightarrow> 'o attribute" where
  "merged_attribute attr_dict k v a =
     \<lparr>a_name = a_name a,
      a_type = (case p_type v of Some t \<Rightarrow> t | None \<Rightarrow> a_type a),
      a_default = (case p_default v of Some d \<Rightarrow> d | None \<Rightarrow> a_default a),
      a_required = (case p_required v of Some r \<Rightarrow> r | None \<Rightarrow> a_required a),
      a_options = merged_options v (a_options a),
      a_value = merged_value attr_dict k v (a_value a)\<rparr>"

text \<open>
  What merging the schema \<open>items\<close> with \<open>attr_dict\<close> into \<open>attrs\<close> leaves in
  \<open>attrs'\<close>: the entries under keys outside the schema are untouched; under every key
  of the schema stands the merged Attribute; and a value outside non-empty options makes
  \<open>check_required\<close> fail.
\<close>

definition merged_result ::
  "('o pyval \<rightharpoonup> 'o pyval) \<Rightarrow> ('o pyval \<times> 'o attr_param) list \<Rightarrow> 'o attrs \<Rightarrow> 'o attrs \<Rightarrow> bool" where
  "merged_result attr_dict items attrs attrs' \<longleftrightarrow>
     (\<forall>k. k \<notin> fst ` set items \<longrightarrow> map_of attrs' k = map_of attrs k) \<and>
     (\<forall>(k, v) \<in> set items. \<exists>a.
         a = merged_attribute attr_dict k v (old_attribute attrs k) \<and>
         map_of attrs' k = Some (Attr a) \<and>
         (a_options a \<noteq> [] \<and> a_value a \<notin> set (a_options a)
            \<longrightarrow> \<not> check_required False attrs'))"

text \<open>
  The schema the second branch of \<open>update_attributes\<close> merges for the current version
  \<open>cur\<close>: the table of that version; a TFLite or TensorFlow op whose class has no
  table for it gets the table of the highest version; an ONNX or Caffe op gets none.
\<close>

definition selected_schema ::
  "framework \<Rightarrow> (int \<times> ('o pyval \<times> 'o attr_param) list) list \<Rightarrow> 'o pyval
     \<Rightarrow> ('o pyval \<times> 'o attr_param) list option" where
  "selected_schema f by_ver cur =
     (case the_int cur of
        Some n \<Rightarrow>
          (case map_of by_ver n of
             Some items \<Rightarrow> Some items
           | None \<Rightarrow> if f = Tflite \<or> f = Tf then Some (highest_schema by_ver) else None)
      | None \<Rightarrow> if f = Tflite \<or> f = Tf then Some (highest_schema by_ver) else None)"
section \<open>The pipeline driver (univ_main.py, univ_parser)\<close>














section \<open>Broadcasting (ops/op.py, class OpNeedBroadcast)\<close>

text \<open>
  A numpy array: its shape and its elements in row-major order.
\<close>

record 'e ndarray =
  nd_shape :: "nat list"
  nd_data :: "'e list"

text \<open>
  \<open>np.max(np.array(rows), axis=0)\<close> for rows of one length: the maximum of every
  column. Without a row the array is empty and one-dimensional, and the reduction raises
  \<open>ValueError\<close>.
\<close>

definition np_max_axis0 :: "nat list list \<Rightarrow> py_error + nat list" where
  "np_max_axis0 rows =
     (case rows of [] \<Rightarrow> Inl ValueError | r # rs \<Rightarrow> Inr (fold (map2 max) rs r))"

text \<open>
  The four tests made for an offset in \<open>cal_reshape_and_tile\<close>; each of them
  accepts the offset, so the offset is taken as soon as one of them holds.
\<close>

definition offset_fits :: "nat list \<Rightarrow> nat list \<Rightarrow> nat \<Rightarrow> bool" where
  "offset_fits s max_dims off =
     (let z = zip s (drop off max_dims)
      in list_all (\<lambda>(sd, max_d). sd = max_d) z \<or>
         list_all (\<lambda>(sd, max_d). sd = max_d \<or> sd = 1) z \<or>
         list_all (\<lambda>(sd, max_d). sd = 1 \<or> max_d = 1) z \<or>
         list_all (\<lambda>(sd, max_d). sd = max_d \<or> sd = 1 \<or> max_d = 1) z)"

text \<open>
  The loop over \<open>enumerate(input_shapes)\<close> for one rank \<open>r\<close>. The state is
  \<open>new_dims_dict\<close> and \<open>max_dims\<close>. A shape of rank \<open>r\<close> that fits at no offset
  ends the loop (\<open>break\<close>); the warning it logs is not modelled.
\<close>

fun place_rank ::
  "bool \<Rightarrow> nat \<Rightarrow> (nat \<times> nat list) list \<Rightarrow> (nat \<times> nat list) list \<times> nat list
     \<Rightarrow> (nat \<times> nat list) list \<times> nat list" where
  "place_rank match_from_left r [] st = st"
| "place_rank match_from_left r ((idx, s) # rest) (new_dims_dict, max_dims) =
     (if length s = r \<and> length s < length max_dims then
        (let dim_diff = length max_dims - length s;
             range_list = (if match_from_left then [0..<dim_diff + 1]
                           else rev [0..<dim_diff + 1])
         in case find (offset_fits s max_dims) range_list of
              None \<Rightarrow> (new_dims_dict, max_dims)
            | Some offset \<Rightarrow>
                (let cur_full_dim = replicate offset 1 @ s @ replicate (dim_diff - offset) 1
                 in place_rank match_from_left r rest
                      (dict_set idx cur_full_dim new_dims_dict,
                       map2 max cur_full_dim max_dims)))
      else place_rank match_from_left r rest (new_dims_dict, max_dims))"

text \<open>
  The loop that collects \<open>reshape_dims\<close>; a shape that is neither of rank 0, nor of
  the highest rank, nor in \<open>new_dims_dict\<close> ends it.
\<close>

fun collect_reshape_dims ::
  "nat \<Rightarrow> (nat \<times> nat list) list \<Rightarrow> (nat \<times> nat list) list \<Rightarrow> nat list list" where
  "collect_reshape_dims max_rank new_dims_dict [] = []"
| "collect_reshape_dims max_rank new_dims_dict ((i, in_shape) # rest) =
     (if length in_shape = 0 then
        replicate max_rank 1 # collect_reshape_dims max_rank new_dims_dict rest
      else if length in_shape = max_rank then
        in_shape # collect_reshape_dims max_rank new_dims_dict rest
      else (case map_of new_dims_dict i of
              Some d \<Rightarrow> d # collect_reshape_dims max_rank new_dims_dict rest
            | None \<Rightarrow> []))"

text \<open>
  \<open>cal_reshape_and_tile\<close>. The result lists, for every input shape, the optional
  \<open>reshape\<close> and the optional \<open>tile\<close> parameter. \<open>np.array(max_dims) // np.array(dim)\<close>
  divides position by position; numpy's integer division by zero yields 0 (with a
  warning), as \<open>div\<close> does here. Reading \<open>reshape_dims[i]\<close> past the end of a list
  that the preceding loop left short raises \<open>IndexError\<close>.
\<close>

definition cal_reshape_and_tile ::
  "nat list list \<Rightarrow> bool \<Rightarrow> py_error + (nat list option \<times> nat list option) list" where
  "cal_reshape_and_tile input_shapes match_from_left =
     (if length input_shapes \<ge> 2 then
        (let max_rank = fold max (map length input_shapes) 0;
             max_dims_array = filter (\<lambda>s. length s = max_rank) input_shapes
         in case (if sum_list (map length max_dims_array) > 0
                  then np_max_axis0 max_dims_array else Inr []) of
              Inl e \<Rightarrow> Inl e
            | Inr max_dims \<Rightarrow>
                (let (new_dims_dict, _) =
                       fold (\<lambda>r. place_rank match_from_left r (enumerate 0 input_shapes))
                            (rev [1..<max_rank]) ([], max_dims);
                     reshape_dims =
                       collect_reshape_dims max_rank new_dims_dict (enumerate 0 input_shapes)
                 in case np_max_axis0 (filter (\<lambda>s. length s = max_rank) reshape_dims) of
                      Inl e \<Rightarrow> Inl e
                    | Inr max_dims' \<Rightarrow>
                        (let reps = map (\<lambda>dim. map2 (div) max_dims' dim) reshape_dims
                         in if length reshape_dims < length input_shapes then Inl IndexError
                            else Inr (map (\<lambda>(i, s).
                                        (if s \<noteq> reshape_dims ! i
                                         then Some (reshape_dims ! i) else None,
                                         if list_ex (\<lambda>r. r \<noteq> 1) (reps ! i)
                                         then Some (reps ! i) else None))
                                      (enumerate 0 input_shapes)))))
      else Inr [])"

text \<open>\<open>np.reshape(value, dims)\<close>: the element count must stay the same.\<close>

definition np_reshape :: "'e ndarray \<Rightarrow> nat list \<Rightarrow> py_error + 'e ndarray" where
  "np_reshape value dims =
     (if prod_list dims = length (nd_data value)
      then Inr \<lparr>nd_shape = dims, nd_data = nd_data value\<rparr>
      else Inl ValueError)"

text \<open>
  \<open>np.tile\<close> on the elements: along the first axis the array consists of \<open>d\<close> blocks;
  every block is tiled along the remaining axes, and the result is repeated \<open>r\<close> times.
\<close>

fun tile_data :: "nat list \<Rightarrow> nat list \<Rightarrow> 'e list \<Rightarrow> 'e list" where
  "tile_data (d # ds) (r # rs) xs =
     concat (replicate r
       (concat (map (\<lambda>i. tile_data ds rs (take (prod_list ds) (drop (i * prod_list ds) xs)))
                    [0..<d])))"
| "tile_data _ _ xs = xs"

text \<open>
  \<open>np.tile(value, reps)\<close>: the shorter of shape and \<open>reps\<close> is filled up with ones in
  front; every dimension is multiplied by its repetition count.
\<close>

definition np_tile :: "'e ndarray \<Rightarrow> nat list \<Rightarrow> 'e ndarray" where
  "np_tile value reps =
     (let d = max (length (nd_shape value)) (length reps);
          shape' = replicate (d - length (nd_shape value)) 1 @ nd_shape value;
          reps' = replicate (d - length reps) 1 @ reps
      in \<lparr>nd_shape = map2 (*) shape' reps', nd_data = tile_data shape' reps' (nd_data value)\<rparr>)"

text \<open>The body of the loop of \<open>broad_cast\<close>: reshape, then tile, where asked for.\<close>

definition reshape_and_tile ::
  "'e ndarray \<Rightarrow> nat list option \<times> nat list option \<Rightarrow> py_error + 'e ndarray" where
  "reshape_and_tile value params =
     (case (case fst params of None \<Rightarrow> Inr value | Some dims \<Rightarrow> np_reshape value dims) of
        Inl e \<Rightarrow> Inl e
      | Inr value' \<Rightarrow>
          (case snd params of None \<Rightarrow> Inr value' | Some reps \<Rightarrow> Inr (np_tile value' reps)))"

fun sequence_sum :: "('a + 'b) list \<Rightarrow> 'a + 'b list" where
  "sequence_sum [] = Inr []"
| "sequence_sum (Inl e # _) = Inl e"
| "sequence_sum (Inr x # rest) =
     (case sequence_sum rest of Inl e \<Rightarrow> Inl e | Inr xs \<Rightarrow> Inr (x # xs))"

definition broad_cast :: "'e ndarray list \<Rightarrow> py_error + 'e ndarray list" where
  "broad_cast inputs =
     (if length inputs \<ge> 2 then
        (case cal_reshape_and_tile (map nd_shape inputs) False of
           Inl e \<Rightarrow> Inl e
         | Inr reshape_tile \<Rightarrow>
             if length reshape_tile = length inputs
             then sequence_sum (map (\<lambda>(value, params). reshape_and_tile value params)
                                    (zip inputs reshape_tile))
             else Inr inputs)
      else Inr inputs)"

text \<open>
  numpy's broadcasting rule, for comparison: shapes are aligned at their last dimension
  and filled up with ones in front; two dimensions are compatible when they are equal or
  one of them is 1, and the result has the other one.
\<close>

definition broadcast_dim :: "nat \<Rightarrow> nat \<Rightarrow> nat option" where
  "broadcast_dim a b =
     (if a = b then Some a else if a = 1 then Some b else if b = 1 then Some a else None)"

fun broadcast_aligned :: "nat list \<Rightarrow> nat list \<Rightarrow> nat list option" where
  "broadcast_aligned [] [] = Some []"
| "broadcast_aligned (a # as) (b # bs) =
     (case (broadcast_dim a b, broadcast_aligned as bs) of
        (Some d, Some ds) \<Rightarrow> Some (d # ds)
      | _ \<Rightarrow> None)"
| "broadcast_aligned _ _ = None"

definition broadcast_two :: "nat list \<Rightarrow> nat list \<Rightarrow> nat list option" where
  "broadcast_two s t =
     (let d = max (length s) (length t)
      in broadcast_aligned (replicate (d - length s) 1 @ s) (replicate (d - length t) 1 @ t))"

fun np_broadcast_shapes :: "nat list list \<Rightarrow> nat list option" where
  "np_broadcast_shapes [] = Some []"
| "np_broadcast_shapes (s # rest) =
     (case np_broadcast_shapes rest of None \<Rightarrow> None | Some t \<Rightarrow> broadcast_two s t)"

section \<open>The graph store\<close>

text \<open>
  Modelled from the spec: the classes \<open>Tensor\<close> (common/defs.py) and \<open>Graph\<close>
  (graph/graph.py) are not part of the sources at hand. A tensor has an optional value,
  an optional shape and the \<open>is_const\<close> flag (its dtype and range play no part
  here). An edge is identified by source, destination and key and carries the source
  output port, the destination input port and an optional tensor. A node has a unique
  name and holds the kind of its Op, once one is attached.
\<close>

record 'e tensor =
  t_value :: "'e ndarray option"
  t_shape :: "nat list option"
  t_is_const :: bool

record 'e edge =
  e_src :: string
  e_dst :: string
  e_key :: nat
  src_out_port :: nat
  dst_in_port :: nat
  e_tensor :: "'e tensor option"

record 'e graph =
  g_nodes :: "(string \<times> string option) list"
  g_edges :: "'e edge list"

text \<open>
  Modelled from the spec: the constructor \<open>Tensor(value=..., is_const=...)\<close>. It
  stores the arguments it is given; a flag that is not given is false and the shape is
  left open.
\<close>

definition Tensor :: "'e ndarray option \<Rightarrow> bool option \<Rightarrow> 'e tensor" where
  "Tensor v c =
     \<lparr>t_value = v, t_shape = None,
      t_is_const = (case c of Some b \<Rightarrow> b | None \<Rightarrow> False)\<rparr>"

definition has_node :: "'e graph \<Rightarrow> string \<Rightarrow> bool" where
  "has_node g n \<longleftrightarrow> n \<in> fst ` set (g_nodes g)"

definition add_node :: "'e graph \<Rightarrow> string \<Rightarrow> 'e graph" where
  "add_node g n = (if has_node g n then g else g\<lparr>g_nodes := g_nodes g @ [(n, None)]\<rparr>)"

text \<open>The keys in use between a source and a destination.\<close>

definition pair_keys :: "'e graph \<Rightarrow> string \<Rightarrow> string \<Rightarrow> nat list" where
  "pair_keys g u v = map e_key (filter (\<lambda>e. e_src e = u \<and> e_dst e = v) (g_edges g))"

text \<open>
  Modelled from the spec: \<open>add_edge\<close> "auto-allocates the next unused key for
  (src,dst) when key is omitted". The next unused key is the first number above every
  key in use, 0 when none is in use.
\<close>

definition new_edge_key :: "nat list \<Rightarrow> nat" where
  "new_edge_key ks = fold (\<lambda>k m. max (Suc k) m) ks 0"

datatype graph_error = DuplicateEdge | NodeNotFound

text \<open>
  Modelled from the spec: \<open>add_edge(src, dst, src_out_port, dst_in_port, tensor?,
  key?)\<close> creates an endpoint that is absent, takes the next unused key when the key is
  omitted, and fails with a duplicate-edge error when an explicit key is in use.
\<close>

definition add_edge ::
  "'e graph \<Rightarrow> string \<Rightarrow> string \<Rightarrow> nat \<Rightarrow> nat \<Rightarrow> 'e tensor option \<Rightarrow> nat option
     \<Rightarrow> graph_error + 'e graph" where
  "add_edge g u v sp dp t key =
     (let ks = pair_keys g u v;
          g1 = add_node (add_node g u) v
      in case key of
           Some k \<Rightarrow>
             if k \<in> set ks then Inl DuplicateEdge
             else Inr (g1\<lparr>g_edges := g_edges g1 @
                        [\<lparr>e_src = u, e_dst = v, e_key = k, src_out_port = sp,
                          dst_in_port = dp, e_tensor = t\<rparr>]\<rparr>)
         | None \<Rightarrow>
             Inr (g1\<lparr>g_edges := g_edges g1 @
                    [\<lparr>e_src = u, e_dst = v, e_key = new_edge_key ks, src_out_port = sp,
                      dst_in_port = dp, e_tensor = t\<rparr>]\<rparr>))"

text \<open>
  Modelled from the spec: \<open>sorted_in_edges\<close> and \<open>sorted_out_edges\<close> return the
  edges into, or out of, a node "ordered ascending by (port, key)"; a node that is
  absent is a not-found error.
\<close>

definition sorted_out_edges :: "'e graph \<Rightarrow> string \<Rightarrow> graph_error + 'e edge list" where
  "sorted_out_edges g n =
     (if has_node g n
      then Inr (sort_key (\<lambda>e. (src_out_port e, e_key e))
                         (filter (\<lambda>e. e_src e = n) (g_edges g)))
      else Inl NodeNotFound)"

definition sorted_in_edges :: "'e graph \<Rightarrow> string \<Rightarrow> graph_error + 'e edge list" where
  "sorted_in_edges g n =
     (if has_node g n
      then Inr (sort_key (\<lambda>e. (dst_in_port e, e_key e))
                         (filter (\<lambda>e. e_dst e = n) (g_edges g)))
      else Inl NodeNotFound)"

text \<open>
  Modelled from the spec: \<open>NodeWrap(graph, name).replace_obj(kind, attrs)\<close> "swaps the
  node's Op for a new one while keeping node identity and edges".
\<close>

definition replace_obj :: "'e graph \<Rightarrow> string \<Rightarrow> string \<Rightarrow> graph_error + 'e graph" where
  "replace_obj g n kind =
     (if has_node g n then Inr (g\<lparr>g_nodes := dict_set n (Some kind) (g_nodes g)\<rparr>)
      else Inl NodeNotFound)"

text \<open>
  A sequence of \<open>add_edge\<close> calls without a key; a call is given by source,
  destination, the two ports and the optional tensor.
\<close>

type_synonym 'e edge_call = "string \<times> string \<times> nat \<times> nat \<times> 'e tensor option"

fun add_edges :: "'e graph \<Rightarrow> 'e edge_call list \<Rightarrow> 'e graph" where
  "add_edges g [] = g"
| "add_edges g ((u, v, sp, dp, t) # calls) =
     (case add_edge g u v sp dp t None of
        Inl _ \<Rightarrow> g
      | Inr g' \<Rightarrow> add_edges g' calls)"

definition edge_id :: "'e edge \<Rightarrow> string \<times> string \<times> nat" where
  "edge_id e = (e_src e, e_dst e, e_key e)"

section \<open>Constant inputs and output tensors (ops/op.py)\<close>

text \<open>
  What can be raised inside \<open>set_out_tensor\<close>: an error of the graph store, or the
  error of reading \<open>d['tensor'].is_const\<close> on an edge that carries no tensor.
\<close>

datatype op_error = GraphError graph_error | NoTensor

text \<open>
  \<open>Op.is_all_inputs_const\<close>. \<open>const_like\<close> is \<open>isinstance(self, ConstLikeOp)\<close>,
  \<open>name\<close> the node of the Op. The list of the \<open>is_const\<close> flags of the input edges
  is built first; an edge without tensor makes that fail. The answer is true when the
  list is not empty and all its flags are set.
\<close>

definition is_all_inputs_const :: "'e graph \<Rightarrow> bool \<Rightarrow> string \<Rightarrow> op_error + bool" where
  "is_all_inputs_const g const_like name =
     (if const_like then Inr True
      else case sorted_in_edges g name of
             Inl e \<Rightarrow> Inl (GraphError e)
           | Inr in_edges \<Rightarrow>
               if list_ex (\<lambda>d. e_tensor d = None) in_edges then Inl NoTensor
               else (let is_const_list = map (\<lambda>d. case e_tensor d of Some t \<Rightarrow> t_is_const t
                                                    | None \<Rightarrow> False) in_edges
                     in Inr (is_const_list \<noteq> [] \<and> list_all (\<lambda>b. b) is_const_list)))"

text \<open>
  The outcome of \<open>set_out_tensor\<close>: it returns normally in both cases, either after
  its loops or after a handler has caught an exception and logged a warning with its
  text; the graph is as the statements before the exception left it.
\<close>

datatype 'e set_out = Done "'e graph" | Warned op_error "'e graph"




section \<open>Output tensors of a node with several outputs (ops/op.py)\<close>

text \<open>\<open>Op.get_out_ports\<close>: \<open>sorted(list(set(ports)))\<close>.\<close>

definition get_out_ports :: "'e graph \<Rightarrow> string \<Rightarrow> graph_error + nat list" where
  "get_out_ports g name =
     (case sorted_out_edges g name of
        Inl e \<Rightarrow> Inl e
      | Inr out_edges \<Rightarrow> Inr (sort (remdups (map src_out_port out_edges))))"

text \<open>\<open>str(i)\<close> for a number that is not negative.\<close>

definition digit_char :: "nat \<Rightarrow> char" where
  "digit_char d = ''0123456789'' ! d"

function str_nat :: "nat \<Rightarrow> string" where
  "str_nat n = (if n < 10 then [digit_char n] else str_nat (n div 10) @ [digit_char (n mod 10)])"
  by auto
termination by (relation "measure id") auto

declare str_nat.simps [simp del]

text \<open>
  The body of the first loop of \<open>OpHasMultipleOutPorts.set_out_tensor\<close> for the index
  \<open>i\<close>: a port without consumer gets an edge to a new node of kind \<open>Out\<close>.
  \<open>get_valid_node_name\<close> (graph/graph_algo.py, not among the sources at hand) is the
  parameter \<open>gvn\<close>: it is given the graph and a base name and returns a node name.
  An exception leaves the graph as the calls before it made it.
\<close>

definition fan_out_step ::
  "('e graph \<Rightarrow> string \<Rightarrow> string) \<Rightarrow> string \<Rightarrow> nat list \<Rightarrow> 'e graph \<Rightarrow> nat
     \<Rightarrow> op_error \<times> 'e graph + 'e graph" where
  "fan_out_step gvn name out_ports g i =
     (if i \<notin> set out_ports
      then (let out = gvn g (name @ ''_out_port_'' @ str_nat i)
            in case add_edge g name out i 0 None None of
                 Inl e \<Rightarrow> Inl (GraphError e, g)
               | Inr g1 \<Rightarrow>
                   (case replace_obj g1 out ''Out'' of
                      Inl e \<Rightarrow> Inl (GraphError e, g1)
                    | Inr g2 \<Rightarrow> Inr g2))
      else Inr g)"

text \<open>The first loop, over \<open>range(len(tensor_data_list))\<close>.\<close>

fun fan_out ::
  "('e graph \<Rightarrow> string \<Rightarrow> string) \<Rightarrow> string \<Rightarrow> nat list \<Rightarrow> 'e graph \<Rightarrow> nat list
     \<Rightarrow> op_error \<times> 'e graph + 'e graph" where
  "fan_out gvn name out_ports g [] = Inr g"
| "fan_out gvn name out_ports g (i # r) =
     (case fan_out_step gvn name out_ports g i of
        Inl x \<Rightarrow> Inl x
      | Inr g' \<Rightarrow> fan_out gvn name out_ports g' r)"

text \<open>
  The body of the second loop for one edge of the port of the tensor \<open>t\<close>: a tensor
  that is there gets the value and, when the value is not \<open>None\<close>, its shape and the
  flag; an edge without tensor gets \<open>Tensor(value=t, is_const=is_const)\<close>.
\<close>

definition set_edge_tensor_multi :: "bool \<Rightarrow> 'e ndarray option \<Rightarrow> 'e edge \<Rightarrow> 'e edge" where
  "set_edge_tensor_multi is_const t d =
     (case e_tensor d of
        Some x \<Rightarrow>
          d\<lparr>e_tensor := Some (case t of
                                None \<Rightarrow> x\<lparr>t_value := None\<rparr>
                              | Some v \<Rightarrow> x\<lparr>t_value := Some v, t_shape := Some (nd_shape v),
                                            t_is_const := is_const\<rparr>)\<rparr>
      | None \<Rightarrow> d\<lparr>e_tensor := Some (Tensor t (Some is_const))\<rparr>)"

text \<open>
  The second loop, over \<open>enumerate(tensor_data_list)\<close>, here the list of the pairs of
  index and tensor. \<open>out_edges\<close> are the edges of the graph that leave the node; for an
  index among the ports, those with that port are changed, in the graph.
\<close>

fun set_port_tensors ::
  "bool \<Rightarrow> string \<Rightarrow> nat list \<Rightarrow> (nat \<times> 'e ndarray option) list \<Rightarrow> 'e edge list \<Rightarrow> 'e edge list" where
  "set_port_tensors is_const name out_ports [] edges = edges"
| "set_port_tensors is_const name out_ports ((i, t) # r) edges =
     set_port_tensors is_const name out_ports r
       (if i \<in> set out_ports
        then map (\<lambda>d. if e_src d = name \<and> src_out_port d = i
                       then set_edge_tensor_multi is_const t d else d) edges
        else edges)"

text \<open>
  \<open>OpHasMultipleOutPorts.set_out_tensor\<close>. When the list has more tensors than the
  node has ports in use, the first loop runs and the ports are read again. Every
  exception is caught and logged.
\<close>

definition OpHasMultipleOutPorts_set_out_tensor ::
  "('e graph \<Rightarrow> string \<Rightarrow> string) \<Rightarrow> 'e graph \<Rightarrow> bool \<Rightarrow> string \<Rightarrow> 'e ndarray option list
     \<Rightarrow> 'e set_out" where
  "OpHasMultipleOutPorts_set_out_tensor gvn g const_like name tensor_data_list =
     (case is_all_inputs_const g const_like name of
        Inl e \<Rightarrow> Warned e g
      | Inr is_const \<Rightarrow>
          (case get_out_ports g name of
             Inl e \<Rightarrow> Warned (GraphError e) g
           | Inr out_ports \<Rightarrow>
               (case (if length tensor_data_list > length out_ports
                      then (case fan_out gvn name out_ports g [0..<length tensor_data_list] of
                              Inl x \<Rightarrow> Inl x
                            | Inr g1 \<Rightarrow>
                                (case get_out_ports g1 name of
                                   Inl e \<Rightarrow> Inl (GraphError e, g1)
                                 | Inr out_ports1 \<Rightarrow> Inr (g1, out_ports1)))
                      else Inr (g, out_ports)) of
                  Inl (e, g1) \<Rightarrow> Warned e g1
                | Inr (g1, out_ports1) \<Rightarrow>
                    (case sorted_out_edges g1 name of
                       Inl e \<Rightarrow> Warned (GraphError e) g1
                     | Inr out_edges \<Rightarrow>
                         Done (g1\<lparr>g_edges :=
                                 set_port_tensors is_const name out_ports1
                                   (zip [0..<length tensor_data_list] tensor_data_list)
                                   (g_edges g1)\<rparr>)))))"

text \<open>
  A name generator for examples: the base name with more underscores appended than the
  longest node name has characters, which no node of the graph can be called.
\<close>

definition fresh_name :: "'e graph \<Rightarrow> string \<Rightarrow> string" where
  "fresh_name g base =
     base @ replicate (Suc (fold max (map (\<lambda>n. length (fst n)) (g_nodes g)) 0)) (CHR ''_'')"
section \<open>Layout conversions are mutually inverse\<close>

lemma length4_cases:
  assumes "length (xs :: 'a list) = 4"
  obtains a b c d where "xs = [a, b, c, d]"
proof -
  from assms obtain a t1 where 1: "xs = a # t1" "length t1 = 3"
    by (cases xs) auto
  then obtain b t2 where 2: "t1 = b # t2" "length t2 = 2"
    by (cases t1) auto
  then obtain c t3 where 3: "t2 = c # t3" "length t3 = 1"
    by (cases t2) auto
  then obtain d where 4: "t3 = [d]"
    by (cases t3) auto
  from 1 2 3 4 have "xs = [a, b, c, d]" by simp
  then show thesis by (rule that)
qed

text \<open>
  Claim C9. For a shape of length 4 with entries in the int64 range (the element type
  both functions convert to), converting NCHW to NHWC and back, or NHWC to NCHW and back,
  returns the original shape; a shape whose length is not 4 is rejected by both
  functions with an assertion failure.
\<close>

theorem shape_layout_roundtrip:
  "(length shape = 4 \<and> list_all int64_ok shape \<longrightarrow>
      (\<exists>t. shape_nchw_to_nhwc shape = Inr t \<and> shape_nhwc_to_nchw t = Inr shape) \<and>
      (\<exists>t. shape_nhwc_to_nchw shape = Inr t \<and> shape_nchw_to_nhwc t = Inr shape)) \<and>
   (length shape \<noteq> 4 \<longrightarrow>
      shape_nchw_to_nhwc shape = Inl AssertionError \<and>
      shape_nhwc_to_nchw shape = Inl AssertionError)"
proof (intro conjI impI)
  assume h: "length shape = 4 \<and> list_all int64_ok shape"
  then obtain a b c d where s: "shape = [a, b, c, d]"
    using length4_cases by blast
  with h show "\<exists>t. shape_nchw_to_nhwc shape = Inr t \<and> shape_nhwc_to_nchw t = Inr shape"
    by (simp add: shape_nchw_to_nhwc_def shape_nhwc_to_nchw_def np_array_int64_def)
  from s h show "\<exists>t. shape_nhwc_to_nchw shape = Inr t \<and> shape_nchw_to_nhwc t = Inr shape"
    by (simp add: shape_nchw_to_nhwc_def shape_nhwc_to_nchw_def np_array_int64_def)
next
  assume "length shape \<noteq> 4"
  then show "shape_nchw_to_nhwc shape = Inl AssertionError"
    by (simp add: shape_nchw_to_nhwc_def)
next
  assume "length shape \<noteq> 4"
  then show "shape_nhwc_to_nchw shape = Inl AssertionError"
    by (simp add: shape_nhwc_to_nchw_def)
qed

theorem shape_layout_roundtrip_witness:
  "shape_nchw_to_nhwc [1, 3, 224, 112] = Inr [1, 224, 112, 3] \<and>
   shape_nhwc_to_nchw [1, 224, 112, 3] = Inr [1, 3, 224, 112] \<and>
   (\<exists>t. shape_nhwc_to_nchw [1, 3, 224, 112] = Inr t \<and>
        shape_nchw_to_nhwc t = Inr [1, 3, 224, 112]) \<and>
   shape_nchw_to_nhwc [1, 3, 224] = Inl AssertionError \<and>
   shape_nhwc_to_nchw [1, 3, 224] = Inl AssertionError"
proof -
  have ok: "length [1, 3, 224, 112 :: int] = 4 \<and> list_all int64_ok [1, 3, 224, 112]"
    by (simp add: int64_ok_def)
  have bad: "length [1, 3, 224 :: int] \<noteq> 4"
    by simp
  have v: "shape_nchw_to_nhwc [1, 3, 224, 112] = Inr [1, 224, 112, 3]"
    by (simp add: shape_nchw_to_nhwc_def np_array_int64_def int64_ok_def)
  show ?thesis
    using shape_layout_roundtrip [of "[1, 3, 224, 112]"]
          shape_layout_roundtrip [of "[1, 3, 224]"] ok bad v
    by auto
qed

section \<open>Padding layouts: ONNX to TensorFlow and back\<close>

lemma onnx_to_tf_rows:
  assumes "length pads mod 2 = 0" "list_all int64_ok pads"
  shows "onnx_to_tf pads =
     Inr \<lparr>a_shape = (length pads div 2 + 2, 2),
          a_rows = [0, 0] # map (\<lambda>j. [pads ! j, pads ! (length pads div 2 + j)]) [0..<length pads div 2] @ [[0, 0]]\<rparr>"
proof -
  let ?n = "length pads div 2"
  have len: "length pads = ?n + ?n" using assms(1) by presburger
  have "map (\<lambda>j. map (\<lambda>row. row ! j) [take ?n pads, drop ?n pads]) [0..<?n]
      = map (\<lambda>j. [pads ! j, pads ! (?n + j)]) [0..<?n]"
    using len by (intro map_cong) auto
  moreover have "drop ?n (z # replicate ?n z) = [z]" for z :: "int list"
    using drop_replicate [of ?n "Suc ?n" z] by simp
  ultimately show ?thesis
    using assms
    by (simp add: onnx_to_tf_def np_array_int64_def Let_def reshape_2_rows_def transpose2_def
        zeros2_def assign_rows_def numeral_2_eq_2)
qed

lemma tf_to_onnx_rows:
  "tf_to_onnx \<lparr>a_shape = (n + 2, 2),
          a_rows = [0, 0] # map (\<lambda>j. [pads ! j, pads ! (n + j)]) [0..<n] @ [[0, 0]]\<rparr> False
   = Inr (map (\<lambda>j. pads ! j) [0..<n] @ map (\<lambda>j. pads ! (n + j)) [0..<n])"
  by (simp add: tf_to_onnx_def transpose2_def slice_cols_inner_def Let_def numeral_2_eq_2 comp_def butlast_append)

lemma halves_nth:
  assumes "length pads = n + n"
  shows "map (\<lambda>j. pads ! j) [0..<n] @ map (\<lambda>j. pads ! (n + j)) [0..<n] = pads"
proof (rule nth_equalityI)
  show "length (map (\<lambda>j. pads ! j) [0..<n] @ map (\<lambda>j. pads ! (n + j)) [0..<n]) = length pads"
    using assms by simp
next
  fix i
  assume "i < length (map (\<lambda>j. pads ! j) [0..<n] @ map (\<lambda>j. pads ! (n + j)) [0..<n])"
  then have i: "i < n + n" by simp
  show "(map (\<lambda>j. pads ! j) [0..<n] @ map (\<lambda>j. pads ! (n + j)) [0..<n]) ! i = pads ! i"
  proof (cases "i < n")
    case True
    then show ?thesis by (simp add: nth_append)
  next
    case False
    with i have "i - n < n" "n + (i - n) = i" by arith+
    with False show ?thesis by (simp add: nth_append)
  qed
qed

text \<open>
  Claim C10. For an even-length pads list in ONNX layout (begin pads, then end pads) with
  entries in the int64 range, \<open>onnx_to_tf\<close> returns an array of shape
  (spatial dims + 2, 2) whose first and last rows are zero, and \<open>tf_to_onnx\<close> with
  \<open>as_full\<close> at its default \<open>False\<close> maps that array back to the original list.
\<close>

theorem pads_roundtrip:
  "length pads mod 2 = 0 \<and> list_all int64_ok pads \<longrightarrow>
     (\<exists>t. onnx_to_tf pads = Inr t \<and> tf_to_onnx t False = Inr pads \<and>
          a_shape t = (length pads div 2 + 2, 2) \<and>
          length (a_rows t) = length pads div 2 + 2 \<and>
          list_all (\<lambda>row. length row = 2) (a_rows t) \<and>
          hd (a_rows t) = [0, 0] \<and> last (a_rows t) = [0, 0])"
proof
  assume h: "length pads mod 2 = 0 \<and> list_all int64_ok pads"
  let ?n = "length pads div 2"
  let ?t = "\<lparr>a_shape = (?n + 2, 2),
          a_rows = [0, 0] # map (\<lambda>j. [pads ! j, pads ! (?n + j)]) [0..<?n] @ [[0, 0]]\<rparr>"
  from h have "length pads mod 2 = 0" by simp
  then have len: "length pads = ?n + ?n" by presburger
  have 1: "onnx_to_tf pads = Inr ?t"
    using h by (simp add: onnx_to_tf_rows)
  have 2: "tf_to_onnx ?t False = Inr pads"
    using tf_to_onnx_rows [of ?n pads] halves_nth [OF len] by simp
  have 3: "list_all (\<lambda>row. length row = 2) (a_rows ?t)"
    by (simp add: list_all_iff)
  from 1 2 3 show "\<exists>t. onnx_to_tf pads = Inr t \<and> tf_to_onnx t False = Inr pads \<and>
          a_shape t = (length pads div 2 + 2, 2) \<and>
          length (a_rows t) = length pads div 2 + 2 \<and>
          list_all (\<lambda>row. length row = 2) (a_rows t) \<and>
          hd (a_rows t) = [0, 0] \<and> last (a_rows t) = [0, 0]"
    by simp
qed

theorem pads_roundtrip_witness:
  "onnx_to_tf [1, 2, 3, 4] =
     Inr \<lparr>a_shape = (4, 2), a_rows = [[0, 0], [1, 3], [2, 4], [0, 0]]\<rparr> \<and>
   tf_to_onnx \<lparr>a_shape = (4, 2), a_rows = [[0, 0], [1, 3], [2, 4], [0, 0]]\<rparr> False
     = Inr [1, 2, 3, 4]"
proof -
  have h: "length [1, 2, 3, 4 :: int] mod 2 = 0 \<and> list_all int64_ok [1, 2, 3, 4]"
    by (simp add: int64_ok_def)
  have v: "onnx_to_tf [1, 2, 3, 4] =
     Inr \<lparr>a_shape = (4, 2), a_rows = [[0, 0], [1, 3], [2, 4], [0, 0]]\<rparr>"
    by code_simp
  show ?thesis
    using pads_roundtrip [of "[1, 2, 3, 4]"] h v by auto
qed
section \<open>Required attributes and options\<close>

lemma check_items_iff:
  "check_items attrs \<longleftrightarrow>
     (\<forall>(k, e) \<in> set attrs. \<forall>a. e = Attr a \<longrightarrow>
        (a_required a \<longrightarrow> a_value a \<noteq> PNone) \<and>
        (a_options a \<noteq> [] \<longrightarrow> a_value a \<in> set (a_options a)))"
  by (induction attrs rule: check_items.induct) auto



lemma map_of_dict_set: "map_of (dict_set k v xs) = (map_of xs)(k \<mapsto> v)"
  by (induction xs) (auto simp: fun_eq_iff)

lemma merge_attr_ok:
  assumes "all_attr attrs"
  shows "\<exists>attrs' a. merge_attr attr_dict k v attrs = Inr attrs' \<and> all_attr attrs' \<and>
           map_of attrs' = (map_of attrs)(k \<mapsto> Attr a) \<and>
           a_value a = merged_value attr_dict k v (old_value attrs k) \<and>
           a_options a = merged_options v (old_options attrs k)"
proof (cases "map_of attrs k")
  case None
  then show ?thesis
    using assms
    by (auto simp: merge_attr_def Let_def all_attr_def map_of_dict_set merged_value_def
        old_value_def old_options_def merged_options_def Attribute_def attr_update_def
        split: option.splits)
next
  case (Some e)
  with assms obtain b where "e = Attr b" by (auto simp: all_attr_def)
  with Some show ?thesis
    using assms
    by (auto simp: merge_attr_def Let_def all_attr_def map_of_dict_set merged_value_def
        old_value_def old_options_def merged_options_def attr_update_def
        split: option.splits)
qed

lemma merge_all_ok:
  assumes "all_attr attrs" "distinct (map fst items)"
  shows "\<exists>attrs'. merge_all attr_dict items attrs = Inr attrs' \<and> all_attr attrs' \<and>
           (\<forall>k. k \<notin> fst ` set items \<longrightarrow> map_of attrs' k = map_of attrs k) \<and>
           (\<forall>(k, v) \<in> set items. \<exists>a. map_of attrs' k = Some (Attr a) \<and>
               a_value a = merged_value attr_dict k v (old_value attrs k) \<and>
               a_options a = merged_options v (old_options attrs k))"
  using assms
proof (induction items arbitrary: attrs)
  case Nil
  then show ?case by simp
next
  case (Cons kv items)
  obtain k v where kv: "kv = (k, v)" by (cases kv)
  from merge_attr_ok [OF Cons.prems(1), of attr_dict k v]
  obtain attrs1 a where 1: "merge_attr attr_dict k v attrs = Inr attrs1" "all_attr attrs1"
      "map_of attrs1 = (map_of attrs)(k \<mapsto> Attr a)"
      "a_value a = merged_value attr_dict k v (old_value attrs k)"
      "a_options a = merged_options v (old_options attrs k)"
    by blast
  from Cons.prems(2) kv have d: "distinct (map fst items)" and nk: "k \<notin> fst ` set items"
    by auto
  from Cons.IH [OF 1(2) d]
  obtain attrs' where 2: "merge_all attr_dict items attrs1 = Inr attrs'" "all_attr attrs'"
      "\<forall>k. k \<notin> fst ` set items \<longrightarrow> map_of attrs' k = map_of attrs1 k"
      "\<forall>(k, v) \<in> set items. \<exists>a. map_of attrs' k = Some (Attr a) \<and>
               a_value a = merged_value attr_dict k v (old_value attrs1 k) \<and>
               a_options a = merged_options v (old_options attrs1 k)"
    by blast
  have same: "old_value attrs1 k' = old_value attrs k' \<and> old_options attrs1 k' = old_options attrs k'"
    if "k' \<in> fst ` set items" for k'
    using that nk 1(3) by (auto simp: old_value_def old_options_def)
  have r: "merge_all attr_dict (kv # items) attrs = Inr attrs'"
    using kv 1(1) 2(1) by simp
  have u: "\<forall>k'. k' \<notin> fst ` set (kv # items) \<longrightarrow> map_of attrs' k' = map_of attrs k'"
    using kv 2(3) 1(3) by auto
  have h: "\<exists>a. map_of attrs' k = Some (Attr a) \<and>
               a_value a = merged_value attr_dict k v (old_value attrs k) \<and>
               a_options a = merged_options v (old_options attrs k)"
    using 2(3) nk 1(3,4,5) by auto
  have t: "\<forall>(k', v') \<in> set items. \<exists>a. map_of attrs' k' = Some (Attr a) \<and>
               a_value a = merged_value attr_dict k' v' (old_value attrs k') \<and>
               a_options a = merged_options v' (old_options attrs k')"
  proof (clarify)
    fix k' v' assume m: "(k', v') \<in> set items"
    then have "k' \<in> fst ` set items" by force
    from same [OF this] have s1: "old_value attrs1 k' = old_value attrs k'"
      and s2: "old_options attrs1 k' = old_options attrs k'" by simp_all
    from 2(4) m obtain a where a: "map_of attrs' k' = Some (Attr a)"
        "a_value a = merged_value attr_dict k' v' (old_value attrs1 k')"
        "a_options a = merged_options v' (old_options attrs1 k')"
      by blast
    from a(2) s1 have b: "a_value a = merged_value attr_dict k' v' (old_value attrs k')" by simp
    from a(3) s2 have c: "a_options a = merged_options v' (old_options attrs k')"
      by simp
    from a(1) b c
    show "\<exists>a. map_of attrs' k' = Some (Attr a) \<and>
               a_value a = merged_value attr_dict k' v' (old_value attrs k') \<and>
               a_options a = merged_options v' (old_options attrs k')"
      by blast
  qed
  from r 2(2) u h t kv show ?case by auto
qed

lemma check_items_false:
  assumes "map_of attrs k = Some (Attr a)" "a_options a \<noteq> []" "a_value a \<notin> set (a_options a)"
  shows "\<not> check_items attrs"
proof -
  from assms(1) have "(k, Attr a) \<in> set attrs" by (rule map_of_SomeD)
  with assms(2,3) show ?thesis unfolding check_items_iff by blast
qed

lemma set_attr_value_ok:
  assumes "set_attr_value attrs k v = Inr attrs1" "all_attr attrs"
  shows "all_attr attrs1"
    and "\<forall>k'. k' \<noteq> k \<longrightarrow> map_of attrs1 k' = map_of attrs k'"
    and "\<exists>a. map_of attrs k = Some (Attr a) \<and> map_of attrs1 k = Some (Attr (a\<lparr>a_value := v\<rparr>))"
proof -
  from assms(1) obtain a where a: "map_of attrs k = Some (Attr a)"
    and r: "attrs1 = dict_set k (Attr (a\<lparr>a_value := v\<rparr>)) attrs"
    by (auto simp: set_attr_value_def split: option.splits entry.splits)
  from r have m: "map_of attrs1 = (map_of attrs)(k \<mapsto> Attr (a\<lparr>a_value := v\<rparr>))"
    by (simp add: map_of_dict_set)
  show "all_attr attrs1"
    unfolding all_attr_def
  proof (intro allI impI)
    fix k' e assume "map_of attrs1 k' = Some e"
    with m assms(2) show "\<exists>a. e = Attr a"
      by (cases "k' = k") (auto simp: all_attr_def)
  qed
  from m show "\<forall>k'. k' \<noteq> k \<longrightarrow> map_of attrs1 k' = map_of attrs k'" by simp
  from a m show "\<exists>a. map_of attrs k = Some (Attr a) \<and> map_of attrs1 k = Some (Attr (a\<lparr>a_value := v\<rparr>))"
    by simp
qed

lemma dict_set_same:
  assumes "map_of xs k = Some v"
  shows "dict_set k v xs = xs"
  using assms by (induction xs) (auto split: if_splits)

lemma merge_attr_exact:
  assumes "all_attr attrs"
  shows "merge_attr attr_dict k v attrs =
           Inr (dict_set k (Attr (merged_attribute attr_dict k v (old_attribute attrs k))) attrs)"
proof (cases "map_of attrs k")
  case None
  then show ?thesis
    by (simp add: merge_attr_def Let_def merged_attribute_def old_attribute_def merged_value_def
        merged_options_def Attribute_def attr_update_def split: option.splits)
next
  case (Some e)
  with assms obtain b where "e = Attr b" by (auto simp: all_attr_def)
  with Some show ?thesis
    by (cases b)
      (simp add: merge_attr_def Let_def merged_attribute_def old_attribute_def merged_value_def
        merged_options_def attr_update_def split: option.splits)
qed

lemma all_attr_dict_set:
  assumes "all_attr attrs"
  shows "all_attr (dict_set k (Attr a) attrs)"
  using assms by (auto simp: all_attr_def map_of_dict_set split: if_splits)

lemma old_attribute_dict_set:
  assumes "k' \<noteq> k"
  shows "old_attribute (dict_set k e attrs) k' = old_attribute attrs k'"
  using assms by (simp add: old_attribute_def map_of_dict_set)

lemma merge_all_exact:
  assumes "all_attr attrs" "distinct (map fst items)"
  shows "\<exists>attrs'. merge_all attr_dict items attrs = Inr attrs' \<and> all_attr attrs' \<and>
           (\<forall>k. k \<notin> fst ` set items \<longrightarrow> map_of attrs' k = map_of attrs k) \<and>
           (\<forall>(k, v) \<in> set items.
               map_of attrs' k
                 = Some (Attr (merged_attribute attr_dict k v (old_attribute attrs k))))"
  using assms
proof (induction items arbitrary: attrs)
  case Nil
  then show ?case by simp
next
  case (Cons kv items)
  obtain k v where kv: "kv = (k, v)" by (cases kv)
  define a where "a = merged_attribute attr_dict k v (old_attribute attrs k)"
  define attrs1 where "attrs1 = dict_set k (Attr a) attrs"
  from merge_attr_exact [OF Cons.prems(1), of attr_dict k v]
  have 1: "merge_attr attr_dict k v attrs = Inr attrs1" by (simp add: attrs1_def a_def)
  have a1: "all_attr attrs1" unfolding attrs1_def by (rule all_attr_dict_set [OF Cons.prems(1)])
  have m1: "map_of attrs1 = (map_of attrs)(k \<mapsto> Attr a)"
    unfolding attrs1_def by (rule map_of_dict_set)
  from Cons.prems(2) kv have d: "distinct (map fst items)" and nk: "k \<notin> fst ` set items"
    by auto
  from Cons.IH [OF a1 d]
  obtain attrs' where 2: "merge_all attr_dict items attrs1 = Inr attrs'" "all_attr attrs'"
      "\<forall>k. k \<notin> fst ` set items \<longrightarrow> map_of attrs' k = map_of attrs1 k"
      "\<forall>(k, v) \<in> set items.
          map_of attrs' k = Some (Attr (merged_attribute attr_dict k v (old_attribute attrs1 k)))"
    by blast
  have r: "merge_all attr_dict (kv # items) attrs = Inr attrs'"
    using kv 1 2(1) by simp
  have u: "\<forall>k'. k' \<notin> fst ` set (kv # items) \<longrightarrow> map_of attrs' k' = map_of attrs k'"
    using kv 2(3) m1 by auto
  have h: "map_of attrs' k = Some (Attr (merged_attribute attr_dict k v (old_attribute attrs k)))"
    using 2(3) nk m1 by (simp add: a_def)
  have t: "\<forall>(k', v') \<in> set items.
      map_of attrs' k' = Some (Attr (merged_attribute attr_dict k' v' (old_attribute attrs k')))"
  proof (clarify)
    fix k' v' assume m: "(k', v') \<in> set items"
    then have "k' \<in> fst ` set items" by force
    with nk have "k' \<noteq> k" by blast
    then have "old_attribute attrs1 k' = old_attribute attrs k'"
      unfolding attrs1_def by (rule old_attribute_dict_set)
    with 2(4) m
    show "map_of attrs' k' = Some (Attr (merged_attribute attr_dict k' v' (old_attribute attrs k')))"
      by auto
  qed
  from r 2(2) u h t kv show ?case by auto
qed

lemma merge_all_result:
  assumes "all_attr attrs" "distinct (map fst items)"
  shows "\<exists>attrs'. merge_all attr_dict items attrs = Inr attrs' \<and>
           merged_result attr_dict items attrs attrs'"
proof -
  from merge_all_exact [OF assms, of attr_dict] obtain attrs' where
    m: "merge_all attr_dict items attrs = Inr attrs'"
    and 1: "\<forall>k. k \<notin> fst ` set items \<longrightarrow> map_of attrs' k = map_of attrs k"
    and 2: "\<forall>(k, v) \<in> set items.
               map_of attrs' k
                 = Some (Attr (merged_attribute attr_dict k v (old_attribute attrs k)))"
    by blast
  have "\<exists>a. a = merged_attribute attr_dict k v (old_attribute attrs k) \<and>
            map_of attrs' k = Some (Attr a) \<and>
            (a_options a \<noteq> [] \<and> a_value a \<notin> set (a_options a)
               \<longrightarrow> \<not> check_required False attrs')"
    if "(k, v) \<in> set items" for k v
  proof -
    define a where "a = merged_attribute attr_dict k v (old_attribute attrs k)"
    from 2 that have s: "map_of attrs' k = Some (Attr a)" by (auto simp: a_def)
    have "\<not> check_required False attrs'"
      if "a_options a \<noteq> [] \<and> a_value a \<notin> set (a_options a)"
      using check_items_false [OF s] that by (simp add: check_required_def)
    with s show ?thesis unfolding a_def by blast
  qed
  with 1 have "merged_result attr_dict items attrs attrs'"
    unfolding merged_result_def by blast
  with m show ?thesis by blast
qed

lemma map_of_keyed_any:
  "map_of (keyed_schemas by_ver) cur
     = (case the_int cur of Some n \<Rightarrow> map_of by_ver n | None \<Rightarrow> None)"
  by (induction by_ver) (auto simp: keyed_schemas_def split: option.splits elim: the_int.elims)

lemma keyed_member:
  "cur \<in> set (map (PInt \<circ> fst) by_ver)
     \<longleftrightarrow> (case the_int cur of Some n \<Rightarrow> map_of by_ver n \<noteq> None | None \<Rightarrow> False)"
  by (cases cur) (auto simp: map_of_eq_None_iff image_iff)

lemma highest_schema_distinct:
  assumes "\<forall>items \<in> snd ` set by_ver. distinct (map fst items)"
  shows "distinct (map fst (highest_schema by_ver))"
proof (cases "sort (map fst by_ver) \<noteq> []")
  case False
  then show ?thesis by (simp add: highest_schema_def)
next
  case True
  show ?thesis
  proof (cases "map_of by_ver (last (sort (map fst by_ver)))")
    case None
    with True show ?thesis by (simp add: highest_schema_def)
  next
    case (Some items)
    then have "(last (sort (map fst by_ver)), items) \<in> set by_ver" by (rule map_of_SomeD)
    then have "items \<in> snd ` set by_ver" by force
    with assms have "distinct (map fst items)" by blast
    with True Some show ?thesis by (simp add: highest_schema_def)
  qed
qed

lemma selected_schema_distinct:
  assumes "\<forall>items \<in> snd ` set by_ver. distinct (map fst items)"
    "selected_schema f by_ver cur = Some items"
  shows "distinct (map fst items)"
proof -
  have "items = highest_schema by_ver \<or> items \<in> snd ` set by_ver"
    using assms(2)
    by (auto simp: selected_schema_def split: option.splits if_splits dest!: map_of_SomeD)
       force+
  with assms(1) highest_schema_distinct [OF assms(1)] show ?thesis by auto
qed

lemma versioned_select:
  assumes "all_attr attrs" "map_of attrs (PStr ''cur_version'') = Some (Attr c)"
    "f = Onnx \<and> cur = a_value c \<or> f = Caffe \<and> cur = PInt 1 \<or>
     (f = Tflite \<or> f = Tf) \<and> attr_value attrs (PStr ''opcode_version'') = Inr cur"
  shows "update_attributes False (Some f) (ByVersion by_ver) attr_dict attrs =
           (case selected_schema f by_ver cur of
              None \<Rightarrow> Inl AssertionError
            | Some items \<Rightarrow>
                merge_all attr_dict items
                  (dict_set (PStr ''cur_version'') (Attr (c\<lparr>a_value := cur\<rparr>)) attrs))"
proof -
  define attrs1 where "attrs1 = dict_set (PStr ''cur_version'') (Attr (c\<lparr>a_value := cur\<rparr>)) attrs"
  have s: "set_attr_value attrs (PStr ''cur_version'') cur = Inr attrs1"
    using assms(2) by (simp add: set_attr_value_def attrs1_def)
  have c1: "map_of attrs1 (PStr ''cur_version'') = Some (Attr (c\<lparr>a_value := cur\<rparr>))"
    unfolding attrs1_def by (simp add: map_of_dict_set)
  have mv: "merge_version attr_dict attrs1 cls_attrs =
          (case map_of cls_attrs cur of
             None \<Rightarrow> Inl AssertionError
           | Some items \<Rightarrow> merge_all attr_dict items attrs1)" for cls_attrs
    using c1 by (simp add: merge_version_def)
  from assms(3) consider (onnx) "f = Onnx" "cur = a_value c" | (caffe) "f = Caffe" "cur = PInt 1"
    | (tf) "f = Tflite \<or> f = Tf" "attr_value attrs (PStr ''opcode_version'') = Inr cur"
    by blast
  then show ?thesis
  proof cases
    case onnx
    then have e: "attrs1 = attrs"
      unfolding attrs1_def using dict_set_same [OF assms(2)] by simp
    from onnx have v: "version_schemas f by_ver attrs = Inr (attrs1, keyed_schemas by_ver)"
      by (simp add: version_schemas_def e)
    have u: "update_attributes False (Some f) (ByVersion by_ver) attr_dict attrs
               = merge_version attr_dict attrs1 (keyed_schemas by_ver)"
      by (simp add: update_attributes_def v)
    from onnx(1) show ?thesis
      unfolding attrs1_def [symmetric] u mv
      by (simp add: map_of_keyed_any selected_schema_def split: option.splits)
  next
    case caffe
    with s have v: "version_schemas f by_ver attrs = Inr (attrs1, keyed_schemas by_ver)"
      by (simp add: version_schemas_def)
    have u: "update_attributes False (Some f) (ByVersion by_ver) attr_dict attrs
               = merge_version attr_dict attrs1 (keyed_schemas by_ver)"
      by (simp add: update_attributes_def v)
    from caffe(1) show ?thesis
      unfolding attrs1_def [symmetric] u mv
      by (simp add: map_of_keyed_any selected_schema_def split: option.splits)
  next
    case tf
    show ?thesis
    proof (cases "cur \<in> set (map (PInt \<circ> fst) by_ver)")
      case True
      with tf s have v: "version_schemas f by_ver attrs = Inr (attrs1, keyed_schemas by_ver)"
        by (auto simp: version_schemas_def)
      from True have "case the_int cur of Some n \<Rightarrow> map_of by_ver n \<noteq> None | None \<Rightarrow> False"
        by (simp only: keyed_member)
      then obtain n items where n: "the_int cur = Some n" "map_of by_ver n = Some items"
        by (auto split: option.splits)
      have u: "update_attributes False (Some f) (ByVersion by_ver) attr_dict attrs
               = merge_version attr_dict attrs1 (keyed_schemas by_ver)"
        by (simp add: update_attributes_def v)
      show ?thesis
        unfolding attrs1_def [symmetric] u mv
        by (simp add: map_of_keyed_any selected_schema_def n)
    next
      case False
      with tf s have v: "version_schemas f by_ver attrs
          = Inr (attrs1, keyed_schemas by_ver @ [(cur, highest_schema by_ver)])"
        by (auto simp: version_schemas_def)
      from False have n: "\<not> (case the_int cur of Some n \<Rightarrow> map_of by_ver n \<noteq> None | None \<Rightarrow> False)"
        unfolding keyed_member .
      then have k: "map_of (keyed_schemas by_ver) cur = None"
        by (auto simp: map_of_keyed_any split: option.splits)
      have l: "map_of (keyed_schemas by_ver @ [(cur, highest_schema by_ver)]) cur
                 = Some (highest_schema by_ver)"
        using k by (simp add: map_add_def)
      from n tf(1) have sel: "selected_schema f by_ver cur = Some (highest_schema by_ver)"
        by (auto simp: selected_schema_def split: option.splits)
      have u: "update_attributes False (Some f) (ByVersion by_ver) attr_dict attrs
               = merge_version attr_dict attrs1 (keyed_schemas by_ver @ [(cur, highest_schema by_ver)])"
        by (simp add: update_attributes_def v)
      show ?thesis
        unfolding attrs1_def [symmetric] u mv l sel by simp
    qed
  qed
qed

text \<open>
  Claim C3, as the code has it. In its first branch (an abstract class, or an op of no
  framework) \<open>update_attributes\<close> always returns, for a schema with attribute names as
  keys and for one with version numbers as keys alike. In its second branch (a concrete
  class of a framework, with tables by version) it sets the current version (the one the
  op has for ONNX, 1 for Caffe, the opcode version for TFLite and TensorFlow), fails its
  assertion when an ONNX or Caffe class has no table for that version, and otherwise
  merges the table of that version, for TFLite and TensorFlow the table of the highest
  version when there is none. What is merged is pinned: under every key of the schema
  stands the Attribute with the fields of the schema entry and with the provided value
  when the dictionary has one, else the schema default when there is one, else the value
  it had, stored as it was given; all other entries are untouched. No value is checked
  against the options: a value outside them is stored, and it is \<open>check_required\<close>
  that then answers false.
\<close>

theorem update_attributes_merges:
  "(all_attr attrs \<and> distinct (map fst (flat_items schema)) \<and> (is_abstract \<or> fw = None) \<longrightarrow>
      (\<exists>attrs'. update_attributes is_abstract fw schema attr_dict attrs = Inr attrs' \<and>
          merged_result attr_dict (flat_items schema) attrs attrs')) \<and>
   (all_attr attrs \<and> (\<forall>items \<in> snd ` set by_ver. distinct (map fst items)) \<and>
    map_of attrs (PStr ''cur_version'') = Some (Attr c) \<and>
    (f = Onnx \<and> cur = a_value c \<or> f = Caffe \<and> cur = PInt 1 \<or>
     (f = Tflite \<or> f = Tf) \<and> attr_value attrs (PStr ''opcode_version'') = Inr cur) \<longrightarrow>
      (case selected_schema f by_ver cur of
         None \<Rightarrow>
           update_attributes False (Some f) (ByVersion by_ver) attr_dict attrs
             = Inl AssertionError
       | Some items \<Rightarrow>
           (\<exists>attrs'. update_attributes False (Some f) (ByVersion by_ver) attr_dict attrs
                        = Inr attrs' \<and>
              merged_result attr_dict items
                (dict_set (PStr ''cur_version'') (Attr (c\<lparr>a_value := cur\<rparr>)) attrs) attrs')))"
proof (intro conjI impI)
  assume h: "all_attr attrs \<and> distinct (map fst (flat_items schema)) \<and> (is_abstract \<or> fw = None)"
  then have a: "all_attr attrs" and d: "distinct (map fst (flat_items schema))" by simp_all
  from h have "update_attributes is_abstract fw schema attr_dict attrs
                 = merge_all attr_dict (flat_items schema) attrs"
    by (auto simp: update_attributes_def)
  with merge_all_result [OF a d, of attr_dict]
  show "\<exists>attrs'. update_attributes is_abstract fw schema attr_dict attrs = Inr attrs' \<and>
          merged_result attr_dict (flat_items schema) attrs attrs'"
    by simp
next
  assume h: "all_attr attrs \<and> (\<forall>items \<in> snd ` set by_ver. distinct (map fst items)) \<and>
    map_of attrs (PStr ''cur_version'') = Some (Attr c) \<and>
    (f = Onnx \<and> cur = a_value c \<or> f = Caffe \<and> cur = PInt 1 \<or>
     (f = Tflite \<or> f = Tf) \<and> attr_value attrs (PStr ''opcode_version'') = Inr cur)"
  then have a: "all_attr attrs"
    and d: "\<forall>items \<in> snd ` set by_ver. distinct (map fst items)"
    and c: "map_of attrs (PStr ''cur_version'') = Some (Attr c)"
    and v: "f = Onnx \<and> cur = a_value c \<or> f = Caffe \<and> cur = PInt 1 \<or>
     (f = Tflite \<or> f = Tf) \<and> attr_value attrs (PStr ''opcode_version'') = Inr cur"
    by simp_all
  define attrs1 where "attrs1 = dict_set (PStr ''cur_version'') (Attr (c\<lparr>a_value := cur\<rparr>)) attrs"
  have a1: "all_attr attrs1" unfolding attrs1_def by (rule all_attr_dict_set [OF a])
  note u = versioned_select [OF a c v, of by_ver attr_dict, folded attrs1_def]
  show "case selected_schema f by_ver cur of
         None \<Rightarrow>
           update_attributes False (Some f) (ByVersion by_ver) attr_dict attrs
             = Inl AssertionError
       | Some items \<Rightarrow>
           (\<exists>attrs'. update_attributes False (Some f) (ByVersion by_ver) attr_dict attrs
                        = Inr attrs' \<and>
              merged_result attr_dict items
                (dict_set (PStr ''cur_version'') (Attr (c\<lparr>a_value := cur\<rparr>)) attrs) attrs')"
  proof (cases "selected_schema f by_ver cur")
    case None
    with u show ?thesis by simp
  next
    case (Some items)
    from selected_schema_distinct [OF d Some] have di: "distinct (map fst items)" .
    from merge_all_result [OF a1 di, of attr_dict] u Some
    show ?thesis unfolding attrs1_def by simp
  qed
qed

text \<open>
  Claim C3 as stated fails: with the schema of the base class \<open>Op\<close>, a data format
  outside the declared options and a string for the integer attribute \<open>cur_version\<close>
  are stored unchanged, and no error is raised.
\<close>

theorem update_attributes_no_options_error:
  "update_attributes True None (Flat Op_attributes)
     [PStr ''data_format'' \<mapsto> PStr ''XYZ'', PStr ''cur_version'' \<mapsto> PStr ''7''] ([] :: unit attrs)
   = Inr [(PStr ''name'', Attr \<lparr>a_name = PStr ''name'', a_type = STRING, a_default = PStr [],
                          a_required = True, a_options = [], a_value = PStr []\<rparr>),
          (PStr ''data_format'', Attr \<lparr>a_name = PStr ''data_format'', a_type = STRING,
                          a_default = PStr ''NHWC'', a_required = True,
                          a_options = [PStr ''NWC'', PStr ''NCW'', PStr ''NHWC'', PStr ''NCHW'',
                                       PStr ''NDHWC'', PStr ''NCDHW''],
                          a_value = PStr ''XYZ''\<rparr>),
          (PStr ''cur_version'', Attr \<lparr>a_name = PStr ''cur_version'', a_type = INT',
                          a_default = PInt 0, a_required = False, a_options = [],
                          a_value = PStr ''7''\<rparr>)]"
  by (simp add: update_attributes_def Op_attributes_def no_param_def merge_attr_def
      Attribute_def attr_update_def)

theorem update_attributes_merges_witness:
  "update_attributes True None (Flat Op_attributes) [PStr ''data_format'' \<mapsto> PStr ''XYZ'']
     ([] :: unit attrs)
   = Inr [(PStr ''name'', Attr \<lparr>a_name = PStr ''name'', a_type = STRING, a_default = PStr [],
                          a_required = True, a_options = [], a_value = PStr []\<rparr>),
          (PStr ''data_format'', Attr \<lparr>a_name = PStr ''data_format'', a_type = STRING,
                          a_default = PStr ''NHWC'', a_required = True,
                          a_options = [PStr ''NWC'', PStr ''NCW'', PStr ''NHWC'', PStr ''NCHW'',
                                       PStr ''NDHWC'', PStr ''NCDHW''],
                          a_value = PStr ''XYZ''\<rparr>),
          (PStr ''cur_version'', Attr \<lparr>a_name = PStr ''cur_version'', a_type = INT',
                          a_default = PInt 0, a_required = False, a_options = [],
                          a_value = PInt 0\<rparr>)] \<and>
   merged_result [PStr ''data_format'' \<mapsto> PStr ''XYZ''] Op_attributes ([] :: unit attrs)
     [(PStr ''name'', Attr \<lparr>a_name = PStr ''name'', a_type = STRING, a_default = PStr [],
                          a_required = True, a_options = [], a_value = PStr []\<rparr>),
      (PStr ''data_format'', Attr \<lparr>a_name = PStr ''data_format'', a_type = STRING,
                          a_default = PStr ''NHWC'', a_required = True,
                          a_options = [PStr ''NWC'', PStr ''NCW'', PStr ''NHWC'', PStr ''NCHW'',
                                       PStr ''NDHWC'', PStr ''NCDHW''],
                          a_value = PStr ''XYZ''\<rparr>),
      (PStr ''cur_version'', Attr \<lparr>a_name = PStr ''cur_version'', a_type = INT',
                          a_default = PInt 0, a_required = False, a_options = [],
                          a_value = PInt 0\<rparr>)] \<and>
   update_attributes True (Some Tflite) (ByVersion [(1, []), (2, [])]) Map.empty
     [(PStr ''axis'', Attr \<lparr>a_name = PStr ''axis'', a_type = INT', a_default = PInt 0,
                       a_required = False, a_options = [], a_value = (PInt 0 :: unit pyval)\<rparr>)]
   = Inr [(PStr ''axis'', Attr \<lparr>a_name = PStr ''axis'', a_type = INT', a_default = PInt 0,
                       a_required = False, a_options = [], a_value = PInt 0\<rparr>),
          (PInt 1, Attr \<lparr>a_name = PInt 1, a_type = UNDEFINED, a_default = PNone,
                       a_required = False, a_options = [], a_value = PNone\<rparr>),
          (PInt 2, Attr \<lparr>a_name = PInt 2, a_type = UNDEFINED, a_default = PNone,
                       a_required = False, a_options = [], a_value = PNone\<rparr>)] \<and>
   update_attributes False (Some Onnx)
     (ByVersion [(1, [(PStr ''axis'', no_param\<lparr>p_default := Some (PInt 0)\<rparr>)])])
     [PStr ''axis'' \<mapsto> PInt 2]
     [(PStr ''cur_version'', Attr \<lparr>a_name = PStr ''cur_version'', a_type = INT',
                       a_default = PInt 0, a_required = False, a_options = [],
                       a_value = (PInt 1 :: unit pyval)\<rparr>)]
   = Inr [(PStr ''cur_version'', Attr \<lparr>a_name = PStr ''cur_version'', a_type = INT',
                       a_default = PInt 0, a_required = False, a_options = [],
                       a_value = PInt 1\<rparr>),
          (PStr ''axis'', Attr \<lparr>a_name = PStr ''axis'', a_type = UNDEFINED, a_default = PInt 0,
                       a_required = False, a_options = [], a_value = PInt 2\<rparr>)] \<and>
   update_attributes False (Some Onnx)
     (ByVersion [(1, [(PStr ''axis'', no_param\<lparr>p_default := Some (PInt 0)\<rparr>)])])
     [PStr ''axis'' \<mapsto> PInt 2]
     [(PStr ''cur_version'', Attr \<lparr>a_name = PStr ''cur_version'', a_type = INT',
                       a_default = PInt 0, a_required = False, a_options = [],
                       a_value = (PInt 3 :: unit pyval)\<rparr>)]
   = Inl AssertionError"
proof -
  let ?d = "[PStr ''data_format'' \<mapsto> PStr ''XYZ''] :: unit pyval \<rightharpoonup> unit pyval"
  let ?R = "[(PStr ''name'', Attr \<lparr>a_name = PStr ''name'', a_type = STRING, a_default = PStr [],
                          a_required = True, a_options = [], a_value = PStr []\<rparr>),
          (PStr ''data_format'', Attr \<lparr>a_name = PStr ''data_format'', a_type = STRING,
                          a_default = PStr ''NHWC'', a_required = True,
                          a_options = [PStr ''NWC'', PStr ''NCW'', PStr ''NHWC'', PStr ''NCHW'',
                                       PStr ''NDHWC'', PStr ''NCDHW''],
                          a_value = PStr ''XYZ''\<rparr>),
          (PStr ''cur_version'', Attr \<lparr>a_name = PStr ''cur_version'', a_type = INT',
                          a_default = PInt 0, a_required = False, a_options = [],
                          a_value = PInt 0\<rparr>)] :: unit attrs"
  have h1: "all_attr ([] :: unit attrs) \<and>
        distinct (map fst (flat_items (Flat (Op_attributes :: (unit pyval \<times> unit attr_param) list))))
        \<and> (True \<or> (None :: framework option) = None)"
    by (simp add: all_attr_def Op_attributes_def)
  from update_attributes_merges [where attrs = "[] :: unit attrs" and schema = "Flat Op_attributes"
      and is_abstract = True and fw = None and attr_dict = ?d, THEN conjunct1, THEN mp, OF h1]
  obtain attrs' where 1: "update_attributes True None (Flat Op_attributes) ?d [] = Inr attrs'"
    and 2: "merged_result ?d (flat_items (Flat Op_attributes)) [] attrs'"
    by blast
  have e1: "update_attributes True None (Flat Op_attributes) ?d [] = Inr ?R"
    by (simp add: update_attributes_def Op_attributes_def no_param_def merge_attr_def
        Attribute_def attr_update_def)
  from 1 e1 have "attrs' = ?R" by simp
  with 2 have r1: "merged_result ?d Op_attributes [] ?R" by simp
  let ?ax = "[(PStr ''axis'', Attr \<lparr>a_name = PStr ''axis'', a_type = INT', a_default = PInt 0,
                       a_required = False, a_options = [], a_value = (PInt 0 :: unit pyval)\<rparr>)]"
  let ?tr = "ByVersion [(1, []), (2, [])] :: unit cls_schema"
  have h2: "all_attr ?ax \<and> distinct (map fst (flat_items ?tr))
        \<and> (True \<or> Some Tflite = None)"
    by (simp add: all_attr_def)
  from update_attributes_merges [where attrs = ?ax and schema = ?tr and is_abstract = True
      and fw = "Some Tflite" and attr_dict = Map.empty, THEN conjunct1, THEN mp, OF h2]
  obtain attrs2 where 3: "update_attributes True (Some Tflite) ?tr Map.empty ?ax = Inr attrs2"
    by blast
  then have e2: "update_attributes True (Some Tflite) ?tr Map.empty ?ax
     = Inr (?ax @ [(PInt 1, Attr \<lparr>a_name = PInt 1, a_type = UNDEFINED, a_default = PNone,
                       a_required = False, a_options = [], a_value = PNone\<rparr>),
          (PInt 2, Attr \<lparr>a_name = PInt 2, a_type = UNDEFINED, a_default = PNone,
                       a_required = False, a_options = [], a_value = PNone\<rparr>)])"
    by (simp add: update_attributes_def no_param_def merge_attr_def Attribute_def attr_update_def)
  let ?bv = "[(1, [(PStr ''axis'', no_param\<lparr>p_default := Some (PInt 0)\<rparr>)])]
              :: (int \<times> (unit pyval \<times> unit attr_param) list) list"
  let ?c1 = "\<lparr>a_name = PStr ''cur_version'', a_type = INT', a_default = PInt 0,
              a_required = False, a_options = [], a_value = (PInt 1 :: unit pyval)\<rparr>"
  let ?c3 = "\<lparr>a_name = PStr ''cur_version'', a_type = INT', a_default = PInt 0,
              a_required = False, a_options = [], a_value = (PInt 3 :: unit pyval)\<rparr>"
  let ?ad = "[PStr ''axis'' \<mapsto> PInt 2] :: unit pyval \<rightharpoonup> unit pyval"
  have h3: "all_attr [(PStr ''cur_version'', Attr ?c1)]
      \<and> (\<forall>items \<in> snd ` set ?bv. distinct (map fst items)) \<and>
      map_of [(PStr ''cur_version'', Attr ?c1)] (PStr ''cur_version'') = Some (Attr ?c1) \<and>
      (Onnx = Onnx \<and> PInt 1 = a_value ?c1 \<or> Onnx = Caffe \<and> (PInt 1 :: unit pyval) = PInt 1 \<or>
       (Onnx = Tflite \<or> Onnx = Tf) \<and>
         attr_value [(PStr ''cur_version'', Attr ?c1)] (PStr ''opcode_version'') = Inr (PInt 1))"
    by (simp add: all_attr_def)
  have s3: "selected_schema Onnx ?bv (PInt 1)
              = Some [(PStr ''axis'', no_param\<lparr>p_default := Some (PInt 0)\<rparr>)]"
    by (simp add: selected_schema_def)
  from update_attributes_merges [where attrs = "[(PStr ''cur_version'', Attr ?c1)]"
      and by_ver = ?bv and c = ?c1 and f = Onnx and cur = "PInt 1" and attr_dict = ?ad,
      THEN conjunct2, THEN mp, OF h3]
  obtain attrs3 where
    4: "update_attributes False (Some Onnx) (ByVersion ?bv) ?ad [(PStr ''cur_version'', Attr ?c1)]
          = Inr attrs3"
    unfolding s3 by auto
  then have e3: "update_attributes False (Some Onnx) (ByVersion ?bv) ?ad
        [(PStr ''cur_version'', Attr ?c1)]
      = Inr [(PStr ''cur_version'', Attr ?c1),
          (PStr ''axis'', Attr \<lparr>a_name = PStr ''axis'', a_type = UNDEFINED, a_default = PInt 0,
                       a_required = False, a_options = [], a_value = PInt 2\<rparr>)]"
    by (simp add: update_attributes_def version_schemas_def keyed_schemas_def
        merge_version_def merge_attr_def Attribute_def attr_update_def no_param_def)
  have h4: "all_attr [(PStr ''cur_version'', Attr ?c3)]
      \<and> (\<forall>items \<in> snd ` set ?bv. distinct (map fst items)) \<and>
      map_of [(PStr ''cur_version'', Attr ?c3)] (PStr ''cur_version'') = Some (Attr ?c3) \<and>
      (Onnx = Onnx \<and> PInt 3 = a_value ?c3 \<or> Onnx = Caffe \<and> (PInt 3 :: unit pyval) = PInt 1 \<or>
       (Onnx = Tflite \<or> Onnx = Tf) \<and>
         attr_value [(PStr ''cur_version'', Attr ?c3)] (PStr ''opcode_version'') = Inr (PInt 3))"
    by (simp add: all_attr_def)
  have s4: "selected_schema Onnx ?bv (PInt 3) = None"
    by (simp add: selected_schema_def)
  from update_attributes_merges [where attrs = "[(PStr ''cur_version'', Attr ?c3)]"
      and by_ver = ?bv and c = ?c3 and f = Onnx and cur = "PInt 3" and attr_dict = ?ad,
      THEN conjunct2, THEN mp, OF h4]
  have e4: "update_attributes False (Some Onnx) (ByVersion ?bv) ?ad
        [(PStr ''cur_version'', Attr ?c3)] = Inl AssertionError"
    unfolding s4 by auto
  from e1 r1 e2 e3 e4 show ?thesis by simp
qed
section \<open>Resolution of the schema version\<close>

lemma last_filter_upt:
  assumes "filter P [0..<n] \<noteq> []"
  shows "last (filter P [0..<n]) < n \<and> P (last (filter P [0..<n])) \<and>
         (\<forall>i<n. P i \<longrightarrow> i \<le> last (filter P [0..<n]))"
  using assms
proof (induction n)
  case 0
  then show ?case by simp
next
  case (Suc n)
  show ?case
  proof (cases "P n")
    case True
    then show ?thesis by (auto simp: less_Suc_eq)
  next
    case False
    with Suc.prems have ne: "filter P [0..<n] \<noteq> []" by simp
    from Suc.IH [OF ne] False show ?thesis by (auto simp: less_Suc_eq)
  qed
qed

lemma cal_ver_sorted:
  assumes "sorted ver_list"
  shows "cal_ver ver_list v =
     (if \<exists>k \<in> set ver_list. k \<le> v
      then ([], Some (Max {k \<in> set ver_list. k \<le> v}))
      else ([(ERROR, ''[Parser]: All history versions is greater than opset version'')], None))"
proof (cases "v \<in> set ver_list")
  case True
  then have "Max {k \<in> set ver_list. k \<le> v} = v"
    by (intro Max_eqI) auto
  with True show ?thesis by (auto simp: cal_ver_def)
next
  case False
  let ?P = "\<lambda>i. ver_list ! i \<le> v"
  let ?mask = "filter ?P [0..<length ver_list]"
  show ?thesis
  proof (cases "?mask = []")
    case True
    then have "\<forall>i<length ver_list. \<not> ver_list ! i \<le> v"
      by (auto simp: filter_empty_conv)
    then have "\<not> (\<exists>k \<in> set ver_list. k \<le> v)"
      by (auto simp: in_set_conv_nth)
    with False True show ?thesis by (simp add: cal_ver_def)
  next
    case ne: False
    from last_filter_upt [of ?P, OF ne]
    have l: "last ?mask < length ver_list" and p: "ver_list ! last ?mask \<le> v"
      and m: "\<forall>i<length ver_list. ver_list ! i \<le> v \<longrightarrow> i \<le> last ?mask"
      by auto
    have "Max {k \<in> set ver_list. k \<le> v} = ver_list ! last ?mask"
    proof (intro Max_eqI)
      show "finite {k \<in> set ver_list. k \<le> v}" by simp
      show "ver_list ! last ?mask \<in> {k \<in> set ver_list. k \<le> v}" using l p by simp
      fix y assume "y \<in> {k \<in> set ver_list. k \<le> v}"
      then obtain i where i: "i < length ver_list" "ver_list ! i = y" "y \<le> v"
        by (auto simp: in_set_conv_nth)
      with m have "i \<le> last ?mask" by auto
      with assms l i show "y \<le> ver_list ! last ?mask"
        by (auto simp: sorted_iff_nth_mono)
    qed
    moreover from l p have "\<exists>k \<in> set ver_list. k \<le> v" by (meson nth_mem)
    ultimately show ?thesis using False ne by (simp add: cal_ver_def Let_def)
  qed
qed

lemma map_of_keyed: "map_of (keyed_schemas by_ver) (PInt r) = map_of by_ver r"
  by (induction by_ver) (auto simp: keyed_schemas_def)

lemma map_of_keyed_none: "map_of (keyed_schemas by_ver) PNone = None"
  by (induction by_ver) (auto simp: keyed_schemas_def)

lemma set_attr_value_total:
  assumes "map_of attrs k = Some (Attr a)"
  shows "\<exists>attrs1. set_attr_value attrs k v = Inr attrs1"
  using assms by (simp add: set_attr_value_def)

lemma attr_value_after_set:
  assumes "set_attr_value attrs k v = Inr attrs1" "all_attr attrs"
  shows "attr_value attrs1 k = Inr v"
  using set_attr_value_ok(3) [OF assms] by (auto simp: attr_value_def)

lemma Op_init_ok:
  "\<exists>attrs c. Op_init fw attr_dict = Inr attrs \<and> all_attr attrs \<and>
      map_of attrs (PStr ''cur_version'') = Some (Attr c)"
proof -
  have e: "all_attr ([] :: 'a attrs)" by (simp add: all_attr_def)
  have d: "distinct (map fst (Op_attributes :: ('a pyval \<times> 'a attr_param) list))"
    by (simp add: Op_attributes_def)
  from merge_all_ok [OF e d, of attr_dict] obtain attrs where
    1: "merge_all attr_dict Op_attributes [] = Inr attrs" "all_attr attrs"
    and 2: "\<forall>(k, v) \<in> set Op_attributes. \<exists>a. map_of attrs k = Some (Attr a) \<and>
               a_value a = merged_value attr_dict k v (old_value [] k) \<and>
               a_options a = merged_options v (old_options [] k)"
    by blast
  have "(PStr ''cur_version'', no_param\<lparr>p_type := Some INT', p_default := Some (PInt 0),
                                  p_required := Some False\<rparr>)
          \<in> set (Op_attributes :: ('a pyval \<times> 'a attr_param) list)"
    by (simp add: Op_attributes_def)
  with 2 obtain c where "map_of attrs (PStr ''cur_version'') = Some (Attr c)" by blast
  with 1 show ?thesis by (auto simp: Op_init_def update_attributes_def)
qed

lemma OnnxOp_init_ok:
  assumes "attr_dict (PStr ''opset_version'') = Some (PInt v)"
  shows "\<exists>attrs. OnnxOp_init ver_list attr_dict = (fst (cal_ver ver_list v), Inr (attr_dict, attrs)) \<and>
           all_attr attrs \<and>
           attr_value attrs (PStr ''cur_version'')
             = Inr (case snd (cal_ver ver_list v) of Some r \<Rightarrow> PInt r | None \<Rightarrow> PNone)"
proof -
  let ?val = "case snd (cal_ver ver_list v) of Some r \<Rightarrow> PInt r | None \<Rightarrow> PNone"
  from Op_init_ok [of "Some Onnx" attr_dict] obtain attrs0 c where
    0: "Op_init (Some Onnx) attr_dict = Inr attrs0" "all_attr attrs0"
       "map_of attrs0 (PStr ''cur_version'') = Some (Attr c)"
    by blast
  have d: "distinct (map fst (OnnxOp_attributes :: ('a pyval \<times> 'a attr_param) list))"
    by (simp add: OnnxOp_attributes_def)
  from merge_all_ok [OF 0(2) d, of attr_dict] obtain attrs1 where
    1: "merge_all attr_dict OnnxOp_attributes attrs0 = Inr attrs1" "all_attr attrs1"
    and 2: "\<forall>k. k \<notin> fst ` set (OnnxOp_attributes :: ('a pyval \<times> 'a attr_param) list)
               \<longrightarrow> map_of attrs1 k = map_of attrs0 k"
    and 3: "\<forall>(k, v) \<in> set OnnxOp_attributes. \<exists>a. map_of attrs1 k = Some (Attr a) \<and>
               a_value a = merged_value attr_dict k v (old_value attrs0 k) \<and>
               a_options a = merged_options v (old_options attrs0 k)"
    by blast
  have u: "update_attributes True (Some Onnx) (Flat OnnxOp_attributes) attr_dict attrs0 = Inr attrs1"
    using 1(1) by (simp add: update_attributes_def)
  have "(PStr ''opset_version'', no_param\<lparr>p_type := Some INT', p_default := Some (PInt 1),
                                    p_required := Some True\<rparr>)
          \<in> set (OnnxOp_attributes :: ('a pyval \<times> 'a attr_param) list)"
    by (simp add: OnnxOp_attributes_def)
  with 3 obtain a where "map_of attrs1 (PStr ''opset_version'') = Some (Attr a)"
    "a_value a = merged_value attr_dict (PStr ''opset_version'')
        (no_param\<lparr>p_type := Some INT', p_default := Some (PInt 1), p_required := Some True\<rparr>)
        (old_value attrs0 (PStr ''opset_version''))"
    by blast
  with assms have ov: "attr_value attrs1 (PStr ''opset_version'') = Inr (PInt v)"
    by (simp add: attr_value_def merged_value_def)
  from 2 0(3) have cv: "map_of attrs1 (PStr ''cur_version'') = Some (Attr c)"
    by (simp add: OnnxOp_attributes_def)
  from set_attr_value_total [OF cv, of ?val] obtain attrs2 where
    s: "set_attr_value attrs1 (PStr ''cur_version'') ?val = Inr attrs2" by blast
  from set_attr_value_ok(1) [OF s 1(2)] have a2: "all_attr attrs2" .
  from attr_value_after_set [OF s 1(2)] have r: "attr_value attrs2 (PStr ''cur_version'') = Inr ?val" .
  have "OnnxOp_init ver_list attr_dict = (fst (cal_ver ver_list v), Inr (attr_dict, attrs2))"
    using 0(1) assms u ov s
    by (simp add: OnnxOp_init_def split_beta)
  with a2 r show ?thesis by blast
qed

text \<open>
  Claim C2, as the code has it. For an ONNX op whose schema lists its versions in
  ascending order, construction with requested opset version \<open>v\<close> sets the current
  version to the highest schema version that is at most \<open>v\<close>, which is \<open>v\<close> itself
  when \<open>v\<close> is a schema version, and merges the schema of that version; when every
  schema version is above \<open>v\<close>, \<open>cal_ver\<close> logs an error and returns no version, and
  the update with the class schema fails its assertion. For a TFLite or TensorFlow op
  the update takes the requested opcode version itself as current version and never
  fails on it: it merges the schema of that version, or the schema of the highest
  version when the class has none for it.
\<close>

theorem version_resolution:
  "(sorted (map fst by_ver) \<and> attr_dict (PStr ''opset_version'') = Some (PInt v) \<longrightarrow>
      (if \<exists>k \<in> fst ` set by_ver. k \<le> v
       then (\<exists>attrs items.
               OnnxOp_init (map fst by_ver) attr_dict = ([], Inr (attr_dict, attrs)) \<and>
               attr_value attrs (PStr ''cur_version'')
                 = Inr (PInt (Max {k \<in> fst ` set by_ver. k \<le> v})) \<and>
               (v \<in> fst ` set by_ver \<longrightarrow> Max {k \<in> fst ` set by_ver. k \<le> v} = v) \<and>
               map_of by_ver (Max {k \<in> fst ` set by_ver. k \<le> v}) = Some items \<and>
               onnx_op_init by_ver attr_dict = ([], merge_all attr_dict items attrs))
       else onnx_op_init by_ver attr_dict =
              ([(ERROR, ''[Parser]: All history versions is greater than opset version'')],
               Inl AssertionError))) \<and>
   ((f = Tflite \<or> f = Tf) \<and> all_attr attrs0 \<and>
    attr_value attrs0 (PStr ''opcode_version'') = Inr (PInt v) \<and>
    map_of attrs0 (PStr ''cur_version'') = Some (Attr c) \<longrightarrow>
      (\<exists>attrs1. set_attr_value attrs0 (PStr ''cur_version'') (PInt v) = Inr attrs1 \<and>
          attr_value attrs1 (PStr ''cur_version'') = Inr (PInt v) \<and>
          update_attributes False (Some f) (ByVersion by_ver) attr_dict attrs0 =
            merge_all attr_dict
              (case map_of by_ver v of Some items \<Rightarrow> items | None \<Rightarrow> highest_schema by_ver)
              attrs1))"
proof (intro conjI impI)
  assume h: "sorted (map fst by_ver) \<and> attr_dict (PStr ''opset_version'') = Some (PInt v)"
  let ?keys = "map fst by_ver"
  let ?r = "Max {k \<in> fst ` set by_ver. k \<le> v}"
  let ?err = "[(ERROR, ''[Parser]: All history versions is greater than opset version'')]"
  from h have srt: "sorted ?keys" and ov: "attr_dict (PStr ''opset_version'') = Some (PInt v)"
    by simp_all
  have cv: "cal_ver ?keys v =
     (if \<exists>k \<in> fst ` set by_ver. k \<le> v then ([], Some ?r) else (?err, None))"
    using cal_ver_sorted [OF srt, of v] by simp
  from OnnxOp_init_ok [of attr_dict v ?keys] ov obtain attrs where
    i: "OnnxOp_init ?keys attr_dict = (fst (cal_ver ?keys v), Inr (attr_dict, attrs))"
    and a: "all_attr attrs"
    and c: "attr_value attrs (PStr ''cur_version'')
             = Inr (case snd (cal_ver ?keys v) of Some r \<Rightarrow> PInt r | None \<Rightarrow> PNone)"
    by blast
  have u: "onnx_op_init by_ver attr_dict =
        (fst (cal_ver ?keys v),
         merge_version attr_dict attrs (keyed_schemas by_ver))"
    using i by (simp add: onnx_op_init_def update_attributes_def version_schemas_def)
  define r where "r = Max {k \<in> fst ` set by_ver. k \<le> v}"
  have main: "if \<exists>k \<in> fst ` set by_ver. k \<le> v
       then (\<exists>attrs items.
               OnnxOp_init (map fst by_ver) attr_dict = ([], Inr (attr_dict, attrs)) \<and>
               attr_value attrs (PStr ''cur_version'') = Inr (PInt r) \<and>
               (v \<in> fst ` set by_ver \<longrightarrow> r = v) \<and>
               map_of by_ver r = Some items \<and>
               onnx_op_init by_ver attr_dict = ([], merge_all attr_dict items attrs))
       else onnx_op_init by_ver attr_dict = (?err, Inl AssertionError)"
  proof (cases "\<exists>k \<in> fst ` set by_ver. k \<le> v")
    case True
    with cv have cv': "cal_ver ?keys v = ([], Some r)" by (simp add: r_def)
    from True have "{k \<in> fst ` set by_ver. k \<le> v} \<noteq> {}" by blast
    then have "r \<in> {k \<in> fst ` set by_ver. k \<le> v}"
      unfolding r_def by (intro Max_in) simp_all
    then have rin: "r \<in> fst ` set by_ver" by simp
    then have "map_of by_ver r \<noteq> None" by (simp add: map_of_eq_None_iff)
    then obtain items where it: "map_of by_ver r = Some items" by blast
    have same': "v \<in> fst ` set by_ver \<longrightarrow> r = v"
    proof
      assume "v \<in> fst ` set by_ver"
      then show "r = v" unfolding r_def by (intro Max_eqI) auto
    qed
    from c cv' have c': "attr_value attrs (PStr ''cur_version'') = Inr (PInt r)" by simp
    then obtain cur where cur: "map_of attrs (PStr ''cur_version'') = Some (Attr cur)" "a_value cur = PInt r"
      by (auto simp: attr_value_def split: option.splits entry.splits)
    with it have "merge_version attr_dict attrs (keyed_schemas by_ver) = merge_all attr_dict items attrs"
      by (simp add: merge_version_def map_of_keyed)
    with u cv' have u': "onnx_op_init by_ver attr_dict = ([], merge_all attr_dict items attrs)"
      by simp
    from i cv' have i': "OnnxOp_init (map fst by_ver) attr_dict = ([], Inr (attr_dict, attrs))"
      by simp
    have "\<exists>attrs items.
               OnnxOp_init (map fst by_ver) attr_dict = ([], Inr (attr_dict, attrs)) \<and>
               attr_value attrs (PStr ''cur_version'') = Inr (PInt r) \<and>
               (v \<in> fst ` set by_ver \<longrightarrow> r = v) \<and>
               map_of by_ver r = Some items \<and>
               onnx_op_init by_ver attr_dict = ([], merge_all attr_dict items attrs)"
      by (intro exI [of _ attrs] exI [of _ items] conjI) (rule i' c' same' it u')+
    with True show ?thesis by (simp only: if_True)
  next
    case False
    with cv have cv': "cal_ver ?keys v = (?err, None)" by simp
    from c cv' have "attr_value attrs (PStr ''cur_version'') = Inr PNone" by simp
    then obtain cur where cur: "map_of attrs (PStr ''cur_version'') = Some (Attr cur)" "a_value cur = PNone"
      by (auto simp: attr_value_def split: option.splits entry.splits)
    then have "merge_version attr_dict attrs (keyed_schemas by_ver) = Inl AssertionError"
      by (simp add: merge_version_def map_of_keyed_none)
    with u cv' have "onnx_op_init by_ver attr_dict = (?err, Inl AssertionError)" by simp
    with False show ?thesis by (simp only: if_False)
  qed
  then show "if \<exists>k \<in> fst ` set by_ver. k \<le> v
       then (\<exists>attrs items.
               OnnxOp_init (map fst by_ver) attr_dict = ([], Inr (attr_dict, attrs)) \<and>
               attr_value attrs (PStr ''cur_version'') = Inr (PInt ?r) \<and>
               (v \<in> fst ` set by_ver \<longrightarrow> ?r = v) \<and>
               map_of by_ver ?r = Some items \<and>
               onnx_op_init by_ver attr_dict = ([], merge_all attr_dict items attrs))
       else onnx_op_init by_ver attr_dict = (?err, Inl AssertionError)"
    unfolding r_def .
next
  assume h: "(f = Tflite \<or> f = Tf) \<and> all_attr attrs0 \<and>
    attr_value attrs0 (PStr ''opcode_version'') = Inr (PInt v) \<and>
    map_of attrs0 (PStr ''cur_version'') = Some (Attr c)"
  then have f: "f = Tflite \<or> f = Tf" and a: "all_attr attrs0"
    and ov: "attr_value attrs0 (PStr ''opcode_version'') = Inr (PInt v)"
    and cv: "map_of attrs0 (PStr ''cur_version'') = Some (Attr c)"
    by simp_all
  from set_attr_value_total [OF cv, of "PInt v"] obtain attrs1 where
    s: "set_attr_value attrs0 (PStr ''cur_version'') (PInt v) = Inr attrs1" by blast
  from attr_value_after_set [OF s a] have r: "attr_value attrs1 (PStr ''cur_version'') = Inr (PInt v)" .
  then obtain c1 where c1: "map_of attrs1 (PStr ''cur_version'') = Some (Attr c1)" "a_value c1 = PInt v"
    by (auto simp: attr_value_def split: option.splits entry.splits)
  have mem: "PInt v \<in> set (map (PInt \<circ> fst) by_ver) \<longleftrightarrow> map_of by_ver v \<noteq> None"
    by (auto simp: map_of_eq_None_iff image_iff)
  have "update_attributes False (Some f) (ByVersion by_ver) attr_dict attrs0 =
            merge_all attr_dict
              (case map_of by_ver v of Some items \<Rightarrow> items | None \<Rightarrow> highest_schema by_ver)
              attrs1"
  proof (cases "map_of by_ver v")
    case None
    with mem have "PInt v \<notin> set (map (PInt \<circ> fst) by_ver)" by simp
    with f ov s have "version_schemas f by_ver attrs0
        = Inr (attrs1, keyed_schemas by_ver @ [(PInt v, highest_schema by_ver)])"
      by (auto simp: version_schemas_def)
    moreover have "map_of (keyed_schemas by_ver @ [(PInt v, highest_schema by_ver)]) (PInt v)
        = Some (highest_schema by_ver)"
      using None by (simp add: map_add_def map_of_keyed)
    ultimately show ?thesis using c1 None
      by (simp add: update_attributes_def merge_version_def)
  next
    case (Some items)
    with mem have "PInt v \<in> set (map (PInt \<circ> fst) by_ver)" by simp
    with f ov s have "version_schemas f by_ver attrs0 = Inr (attrs1, keyed_schemas by_ver)"
      by (auto simp: version_schemas_def)
    then show ?thesis using c1 Some
      by (simp add: update_attributes_def merge_version_def map_of_keyed)
  qed
  with s r show "\<exists>attrs1. set_attr_value attrs0 (PStr ''cur_version'') (PInt v) = Inr attrs1 \<and>
          attr_value attrs1 (PStr ''cur_version'') = Inr (PInt v) \<and>
          update_attributes False (Some f) (ByVersion by_ver) attr_dict attrs0 =
            merge_all attr_dict
              (case map_of by_ver v of Some items \<Rightarrow> items | None \<Rightarrow> highest_schema by_ver)
              attrs1"
    by blast
qed

text \<open>
  Claim C2 as stated fails for a TFLite op: its class has schemas for the versions 2
  and 3 only, the requested version is 1, and construction does not fail; it warns,
  keeps version 1 as current version and takes the attributes of version 3.
\<close>

theorem tflite_unsupported_version_proceeds:
  "filter (\<lambda>k. k \<le> 1) (map fst [(2 :: int, [(PStr ''axis'', no_param\<lparr>p_default := Some (PInt 3)\<rparr>)]),
                                   (3, [(PStr ''mode'', no_param\<lparr>p_default := Some (PStr ''m'')\<rparr>)])]) = [] \<and>
   map_prod id (map_sum id copied_attr)
     (tflite_op_init [(2, [(PStr ''axis'', no_param\<lparr>p_default := Some (PInt 3)\<rparr>)]),
                      (3, [(PStr ''mode'', no_param\<lparr>p_default := Some (PStr ''m'')\<rparr>)])]
        [PStr ''opcode_version'' \<mapsto> (PInt 1 :: unit pyval)])
   = ([(WARN, ''[Parser]: Opcode Version is not implemented! But will try to proceed.'')],
      Inr [(PStr ''name'', PStr []), (PStr ''data_format'', PStr ''NHWC''), (PStr ''cur_version'', PInt 1),
           (PStr ''opcode_version'', PInt 1), (PStr ''mode'', PStr ''m'')])"
  by (simp add: tflite_op_init_def TfliteOp_init_def Op_init_def update_attributes_def
      Op_attributes_def TfliteOp_attributes_def no_param_def merge_attr_def Attribute_def
      attr_update_def attr_value_def set_attr_value_def version_schemas_def keyed_schemas_def
      highest_schema_def merge_version_def copied_attr_def)

theorem version_resolution_witness:
  "Max {k \<in> fst ` set ([(1, []), (7, [(PStr ''axis'', no_param\<lparr>p_default := Some (PInt 3)\<rparr>)]),
                          (11, [])] :: (int \<times> (unit pyval \<times> unit attr_param) list) list).
          k \<le> 9} = 7 \<and>
   map_prod id (map_sum id copied_attr)
     (onnx_op_init [(1, []), (7, [(PStr ''axis'', no_param\<lparr>p_default := Some (PInt 3)\<rparr>)]), (11, [])]
        [PStr ''opset_version'' \<mapsto> (PInt 9 :: unit pyval)])
     = ([], Inr [(PStr ''name'', PStr []), (PStr ''data_format'', PStr ''NHWC''), (PStr ''cur_version'', PInt 7),
                 (PStr ''opset_version'', PInt 9), (PStr ''axis'', PInt 3)]) \<and>
   onnx_op_init [(1, []), (7, [(PStr ''axis'', no_param\<lparr>p_default := Some (PInt 3)\<rparr>)]), (11, [])]
        [PStr ''opset_version'' \<mapsto> (PInt 0 :: unit pyval)]
     = ([(ERROR, ''[Parser]: All history versions is greater than opset version'')],
        Inl AssertionError) \<and>
   map_sum id copied_attr
     (update_attributes False (Some Tflite)
        (ByVersion [(1, []), (7, [(PStr ''axis'', no_param\<lparr>p_default := Some (PInt 3)\<rparr>)])])
        Map.empty
        [(PStr ''cur_version'', Attr \<lparr>a_name = PStr ''cur_version'', a_type = INT', a_default = PInt 0,
                                  a_required = False, a_options = [], a_value = PInt 0\<rparr>),
         (PStr ''opcode_version'', Attr \<lparr>a_name = PStr ''opcode_version'', a_type = INT',
                                  a_default = PInt 1, a_required = True, a_options = [],
                                  a_value = (PInt 9 :: unit pyval)\<rparr>)])
     = Inr [(PStr ''cur_version'', PInt 9), (PStr ''opcode_version'', PInt 9), (PStr ''axis'', PInt 3)]"
proof -
  let ?bv = "[(1, []), (7, [(PStr ''axis'', no_param\<lparr>p_default := Some (PInt 3)\<rparr>)]), (11, [])]
             :: (int \<times> (unit pyval \<times> unit attr_param) list) list"
  let ?d9 = "[PStr ''opset_version'' \<mapsto> PInt 9] :: unit pyval \<rightharpoonup> unit pyval"
  let ?d0 = "[PStr ''opset_version'' \<mapsto> PInt 0] :: unit pyval \<rightharpoonup> unit pyval"
  let ?A = "[(PStr ''name'', Attr \<lparr>a_name = PStr ''name'', a_type = STRING, a_default = PStr [],
                          a_required = True, a_options = [], a_value = PStr []\<rparr>),
          (PStr ''data_format'', Attr \<lparr>a_name = PStr ''data_format'', a_type = STRING,
                          a_default = PStr ''NHWC'', a_required = True,
                          a_options = [PStr ''NWC'', PStr ''NCW'', PStr ''NHWC'', PStr ''NCHW'',
                                       PStr ''NDHWC'', PStr ''NCDHW''],
                          a_value = PStr ''NHWC''\<rparr>),
          (PStr ''cur_version'', Attr \<lparr>a_name = PStr ''cur_version'', a_type = INT',
                          a_default = PInt 0, a_required = False, a_options = [],
                          a_value = PInt 7\<rparr>),
          (PStr ''opset_version'', Attr \<lparr>a_name = PStr ''opset_version'', a_type = INT',
                          a_default = PInt 1, a_required = True, a_options = [],
                          a_value = PInt 9\<rparr>)] :: unit attrs"
  have ev: "OnnxOp_init (map fst ?bv) ?d9 = ([], Inr (?d9, ?A))"
    by (simp add: OnnxOp_init_def Op_init_def update_attributes_def Op_attributes_def
        OnnxOp_attributes_def no_param_def merge_attr_def Attribute_def attr_update_def
        attr_value_def set_attr_value_def cal_ver_def)
  have h9: "sorted (map fst ?bv) \<and> ?d9 (PStr ''opset_version'') = Some (PInt 9)" by simp
  have c9: "\<exists>k \<in> fst ` set ?bv. k \<le> 9" by simp
  from version_resolution [where by_ver = ?bv and attr_dict = ?d9 and v = 9] h9 c9
  obtain attrs items where
    1: "OnnxOp_init (map fst ?bv) ?d9 = ([], Inr (?d9, attrs))"
    and 2: "attr_value attrs (PStr ''cur_version'') = Inr (PInt (Max {k \<in> fst ` set ?bv. k \<le> 9}))"
    and 3: "map_of ?bv (Max {k \<in> fst ` set ?bv. k \<le> 9}) = Some items"
    and 4: "onnx_op_init ?bv ?d9 = ([], merge_all ?d9 items attrs)"
    by (simp only: if_True) blast
  from 1 ev have at: "attrs = ?A" by simp
  from 2 have m: "Max {k \<in> fst ` set ?bv. k \<le> 9} = 7"
    unfolding at by (simp add: attr_value_def)
  from 3 have it: "items = [(PStr ''axis'', no_param\<lparr>p_default := Some (PInt 3)\<rparr>)]"
    unfolding m by simp
  from 4 have r9: "map_prod id (map_sum id copied_attr) (onnx_op_init ?bv ?d9)
     = ([], Inr [(PStr ''name'', PStr []), (PStr ''data_format'', PStr ''NHWC''), (PStr ''cur_version'', PInt 7),
                 (PStr ''opset_version'', PInt 9), (PStr ''axis'', PInt 3)])"
    unfolding at it
    by (simp add: merge_attr_def Attribute_def attr_update_def no_param_def copied_attr_def)
  have h0: "sorted (map fst ?bv) \<and> ?d0 (PStr ''opset_version'') = Some (PInt 0)" by simp
  have c0: "\<not> (\<exists>k \<in> fst ` set ?bv. k \<le> 0)" by simp
  from version_resolution [where by_ver = ?bv and attr_dict = ?d0 and v = 0] h0 c0
  have r0: "onnx_op_init ?bv ?d0
     = ([(ERROR, ''[Parser]: All history versions is greater than opset version'')],
        Inl AssertionError)"
    by (simp only: if_False)
  let ?bt = "[(1, []), (7, [(PStr ''axis'', no_param\<lparr>p_default := Some (PInt 3)\<rparr>)])]
             :: (int \<times> (unit pyval \<times> unit attr_param) list) list"
  let ?c = "\<lparr>a_name = PStr ''cur_version'', a_type = INT', a_default = PInt 0,
                                  a_required = False, a_options = [], a_value = (PInt 0 :: unit pyval)\<rparr>"
  let ?T = "[(PStr ''cur_version'', Attr ?c),
         (PStr ''opcode_version'', Attr \<lparr>a_name = PStr ''opcode_version'', a_type = INT',
                                  a_default = PInt 1, a_required = True, a_options = [],
                                  a_value = (PInt 9 :: unit pyval)\<rparr>)]"
  have ht: "(Tflite = Tflite \<or> Tflite = Tf) \<and> all_attr ?T \<and>
    attr_value ?T (PStr ''opcode_version'') = Inr (PInt 9) \<and>
    map_of ?T (PStr ''cur_version'') = Some (Attr ?c)"
    by (simp add: all_attr_def attr_value_def)
  from version_resolution [where by_ver = ?bt and v = 9 and f = Tflite and ?attrs0.0 = ?T
        and c = ?c and attr_dict = Map.empty] ht
  obtain attrs1 where
    5: "set_attr_value ?T (PStr ''cur_version'') (PInt 9) = Inr attrs1"
    and 6: "update_attributes False (Some Tflite) (ByVersion ?bt) Map.empty ?T =
            merge_all Map.empty
              (case map_of ?bt 9 of Some items \<Rightarrow> items | None \<Rightarrow> highest_schema ?bt)
              attrs1"
    by blast
  from 5 have a1: "attrs1 = [(PStr ''cur_version'', Attr (?c\<lparr>a_value := PInt 9\<rparr>)),
         (PStr ''opcode_version'', Attr \<lparr>a_name = PStr ''opcode_version'', a_type = INT',
                                  a_default = PInt 1, a_required = True, a_options = [],
                                  a_value = (PInt 9 :: unit pyval)\<rparr>)]"
    by (simp add: set_attr_value_def)
  from 6 have rt: "map_sum id copied_attr
     (update_attributes False (Some Tflite) (ByVersion ?bt) Map.empty ?T)
     = Inr [(PStr ''cur_version'', PInt 9), (PStr ''opcode_version'', PInt 9), (PStr ''axis'', PInt 3)]"
    unfolding a1
    by (simp add: highest_schema_def merge_attr_def Attribute_def attr_update_def no_param_def
        copied_attr_def)
  from m r9 r0 rt show ?thesis by (intro conjI)
qed
section \<open>The driver and failing passes\<close>















section \<open>Broadcasting an empty tensor\<close>

text \<open>
  Claim C8. The shapes (0, 3) and (1, 3) are broadcastable under numpy's rule, to
  (0, 3). \<open>cal_reshape_and_tile\<close> takes the maximum of each dimension, (1, 3), as the
  common shape and divides it by each input shape, so the first input gets the tile
  counts (0, 1) and the second none: \<open>broad_cast\<close> returns the two tensors with
  their shapes (0, 3) and (1, 3) unchanged, which are not the same shape.
\<close>

theorem broad_cast_zero_dim:
  "np_broadcast_shapes [[0, 3], [1, 3]] = Some [0, 3] \<and>
   cal_reshape_and_tile [[0, 3], [1, 3]] False = Inr [(None, Some [0, 1]), (None, None)] \<and>
   broad_cast [\<lparr>nd_shape = [0, 3], nd_data = []\<rparr>,
               \<lparr>nd_shape = [1, 3], nd_data = [1, 2, 3 :: int]\<rparr>]
     = Inr [\<lparr>nd_shape = [0, 3], nd_data = []\<rparr>,
            \<lparr>nd_shape = [1, 3], nd_data = [1, 2, 3]\<rparr>]"
  by code_simp
section \<open>Keys of parallel edges and the order of out-edges\<close>

lemma new_edge_key_above: "k \<in> set ks \<Longrightarrow> k < fold (\<lambda>k m. max (Suc k) m) ks m"
proof (induction ks arbitrary: m)
  case Nil
  then show ?case by simp
next
  case (Cons a ks)
  have mono: "m \<le> fold (\<lambda>k m. max (Suc k) m) xs m" for xs :: "nat list" and m
  proof (induction xs arbitrary: m)
    case Nil
    show ?case by simp
  next
    case (Cons x xs)
    have "m \<le> max (Suc x) m" by simp
    also have "\<dots> \<le> fold (\<lambda>k m. max (Suc k) m) xs (max (Suc x) m)" by (rule Cons.IH)
    finally show ?case by simp
  qed
  show ?case
  proof (cases "k = a")
    case True
    have "a < max (Suc a) m" by simp
    also have "\<dots> \<le> fold (\<lambda>k m. max (Suc k) m) ks (max (Suc a) m)" by (rule mono)
    finally show ?thesis using True by simp
  next
    case False
    with Cons.prems have "k \<in> set ks" by simp
    from Cons.IH [OF this] show ?thesis by simp
  qed
qed

lemma new_edge_key_fresh: "new_edge_key ks \<notin> set ks"
  using new_edge_key_above [of "new_edge_key ks" ks 0] by (auto simp: new_edge_key_def)

lemma add_node_edges: "g_edges (add_node g n) = g_edges g"
  by (simp add: add_node_def)

lemma add_edge_auto:
  "\<exists>g' e. add_edge g u v sp dp t None = Inr g' \<and> g_edges g' = g_edges g @ [e] \<and>
      e_src e = u \<and> e_dst e = v \<and> src_out_port e = sp \<and> dst_in_port e = dp \<and>
      e_tensor e = t \<and> edge_id e \<notin> edge_id ` set (g_edges g)"
proof -
  let ?k = "new_edge_key (pair_keys g u v)"
  let ?e = "\<lparr>e_src = u, e_dst = v, e_key = ?k, src_out_port = sp, dst_in_port = dp,
             e_tensor = t\<rparr>"
  have "edge_id ?e \<notin> edge_id ` set (g_edges g)"
  proof
    assume "edge_id ?e \<in> edge_id ` set (g_edges g)"
    then obtain e' where e': "e' \<in> set (g_edges g)" "edge_id e' = edge_id ?e" by auto
    then have "e_src e' = u" "e_dst e' = v" "e_key e' = ?k" by (simp_all add: edge_id_def)
    with e'(1) have "?k \<in> set (pair_keys g u v)" by (force simp: pair_keys_def)
    with new_edge_key_fresh show False by blast
  qed
  then show ?thesis
    by (simp add: add_edge_def Let_def add_node_edges)
qed

lemma add_edges_new:
  "\<exists>new. g_edges (add_edges g calls) = g_edges g @ new \<and> length new = length calls \<and>
      distinct (map edge_id new) \<and>
      (\<forall>e \<in> set new. edge_id e \<notin> edge_id ` set (g_edges g))"
proof (induction calls arbitrary: g)
  case Nil
  show ?case by simp
next
  case (Cons c calls)
  obtain u v sp dp t where c: "c = (u, v, sp, dp, t)" by (cases c)
  from add_edge_auto [of g u v sp dp t] obtain g1 e where
    1: "add_edge g u v sp dp t None = Inr g1" "g_edges g1 = g_edges g @ [e]"
       "edge_id e \<notin> edge_id ` set (g_edges g)"
    by blast
  from Cons.IH [of g1] obtain new where
    2: "g_edges (add_edges g1 calls) = g_edges g1 @ new" "length new = length calls"
       "distinct (map edge_id new)" "\<forall>e \<in> set new. edge_id e \<notin> edge_id ` set (g_edges g1)"
    by blast
  have r: "add_edges g (c # calls) = add_edges g1 calls" using c 1(1) by simp
  have a: "g_edges (add_edges g (c # calls)) = g_edges g @ (e # new)"
    unfolding r using 2(1) 1(2) by simp
  have b: "length (e # new) = length (c # calls)" using 2(2) by simp
  from 2(4) 1(2) have ne: "edge_id e \<notin> edge_id ` set new" by force
  with 2(3) have d: "distinct (map edge_id (e # new))" by simp
  from 2(4) 1(2,3) have f: "\<forall>e' \<in> set (e # new). edge_id e' \<notin> edge_id ` set (g_edges g)"
    by auto
  from a b d f show ?case by blast
qed

lemma sorted_out_edges_sorted:
  assumes "sorted_out_edges g n = Inr es"
  shows "sorted (map (\<lambda>e. (src_out_port e, e_key e)) es) \<and>
         mset es = mset (filter (\<lambda>e. e_src e = n) (g_edges g))"
  using assms by (auto simp: sorted_out_edges_def split: if_splits)

text \<open>
  Claim C6. After any sequence of \<open>add_edge\<close> calls without a key, every call has
  added one edge, and the added edges differ pairwise in (source, destination, key) and
  from every edge that was there; so edges between the same pair of nodes have distinct
  keys, and a store whose edges were distinct in this sense stays so. The list returned
  by \<open>sorted_out_edges\<close> holds the out-edges of the node, ascending by (port, key).
\<close>

theorem add_edge_keys_distinct_sorted:
  "(\<exists>new. g_edges (add_edges g calls) = g_edges g @ new \<and> length new = length calls \<and>
       distinct (map edge_id new) \<and>
       (\<forall>e \<in> set new. edge_id e \<notin> edge_id ` set (g_edges g))) \<and>
   (distinct (map edge_id (g_edges g)) \<longrightarrow>
       distinct (map edge_id (g_edges (add_edges g calls)))) \<and>
   (\<forall>n es. sorted_out_edges (add_edges g calls) n = Inr es \<longrightarrow>
       sorted (map (\<lambda>e. (src_out_port e, e_key e)) es) \<and>
       mset es = mset (filter (\<lambda>e. e_src e = n) (g_edges (add_edges g calls))))"
proof (intro conjI)
  show "\<exists>new. g_edges (add_edges g calls) = g_edges g @ new \<and> length new = length calls \<and>
       distinct (map edge_id new) \<and>
       (\<forall>e \<in> set new. edge_id e \<notin> edge_id ` set (g_edges g))"
    by (rule add_edges_new)
  show "distinct (map edge_id (g_edges g)) \<longrightarrow>
       distinct (map edge_id (g_edges (add_edges g calls)))"
  proof
    assume d: "distinct (map edge_id (g_edges g))"
    from add_edges_new [of g calls] obtain new where
      n: "g_edges (add_edges g calls) = g_edges g @ new" "distinct (map edge_id new)"
         "\<forall>e \<in> set new. edge_id e \<notin> edge_id ` set (g_edges g)"
      by blast
    from n(3) have "set (map edge_id (g_edges g)) \<inter> set (map edge_id new) = {}" by auto
    with d n(2) show "distinct (map edge_id (g_edges (add_edges g calls)))"
      unfolding n(1) by simp
  qed
  show "\<forall>n es. sorted_out_edges (add_edges g calls) n = Inr es \<longrightarrow>
       sorted (map (\<lambda>e. (src_out_port e, e_key e)) es) \<and>
       mset es = mset (filter (\<lambda>e. e_src e = n) (g_edges (add_edges g calls)))"
    using sorted_out_edges_sorted by blast
qed

theorem add_edge_keys_distinct_sorted_witness:
  "map edge_id (g_edges (add_edges \<lparr>g_nodes = [], g_edges = []\<rparr>
      [(''a'', ''b'', 1, 0, None), (''a'', ''b'', 0, 1, None), (''a'', ''c'', 0, 0, None)]
        :: unit graph))
     = [(''a'', ''b'', 0), (''a'', ''b'', 1), (''a'', ''c'', 0)] \<and>
   distinct [(''a'', ''b'', 0 :: nat), (''a'', ''b'', 1), (''a'', ''c'', 0)] \<and>
   map_sum id (map (\<lambda>e. (src_out_port e, e_key e)))
     (sorted_out_edges (add_edges \<lparr>g_nodes = [], g_edges = []\<rparr>
        [(''a'', ''b'', 1, 0, None), (''a'', ''b'', 0, 1, None), (''a'', ''c'', 0, 0, None)]
          :: unit graph) ''a'')
     = Inr [(0, 0), (0, 1), (1, 0)] \<and>
   sorted [(0 :: nat, 0 :: nat), (0, 1), (1, 0)]"
proof -
  let ?g = "\<lparr>g_nodes = [], g_edges = []\<rparr> :: unit graph"
  let ?calls = "[(''a'', ''b'', 1, 0, None), (''a'', ''b'', 0, 1, None), (''a'', ''c'', 0, 0, None)]
                 :: unit edge_call list"
  have ev: "map edge_id (g_edges (add_edges ?g ?calls))
              = [(''a'', ''b'', 0), (''a'', ''b'', 1), (''a'', ''c'', 0)]"
    by (simp add: add_edge_def add_node_def has_node_def pair_keys_def new_edge_key_def
        edge_id_def Let_def)
  have d0: "distinct (map edge_id (g_edges ?g))" by simp
  with add_edge_keys_distinct_sorted [of ?g ?calls]
  have "distinct (map edge_id (g_edges (add_edges ?g ?calls)))" by blast
  then have d: "distinct [(''a'', ''b'', 0 :: nat), (''a'', ''b'', 1), (''a'', ''c'', 0)]"
    unfolding ev .
  have so: "map_sum id (map (\<lambda>e. (src_out_port e, e_key e)))
              (sorted_out_edges (add_edges ?g ?calls) ''a'') = Inr [(0, 0), (0, 1), (1, 0)]"
    by (simp add: add_edge_def add_node_def has_node_def pair_keys_def new_edge_key_def
        sorted_out_edges_def Let_def)
  then obtain es where es: "sorted_out_edges (add_edges ?g ?calls) ''a'' = Inr es"
    "map (\<lambda>e. (src_out_port e, e_key e)) es = [(0, 0), (0, 1), (1, 0)]"
    by (cases "sorted_out_edges (add_edges ?g ?calls) ''a''") auto
  with add_edge_keys_distinct_sorted [of ?g ?calls]
  have "sorted (map (\<lambda>e. (src_out_port e, e_key e)) es)" by blast
  then have s: "sorted [(0 :: nat, 0 :: nat), (0, 1), (1, 0)]" unfolding es(2) .
  from ev d so s show ?thesis by (intro conjI)
qed
section \<open>Constant inputs and the output tensor\<close>

lemma set_sorted_in_edges:
  "set (sort_key (\<lambda>e. (dst_in_port e, e_key e)) (filter (\<lambda>e. e_dst e = n) es))
     = {e \<in> set es. e_dst e = n}"
  by auto







end
